theory Spec2Isabelle
  imports Main "HOL-Library.Word"
begin

section \<open>Bytes, strings and the error classes\<close>

text \<open>
  A \<^verbatim>\<open>Uint8Array\<close> is a list of 8-bit words. A JavaScript string is the list of its
  UTF-16 code units: \<^verbatim>\<open>===\<close> on two strings is equality of these lists, the empty list is
  the only string that is falsy, and \<^verbatim>\<open>+\<close> appends. \<open>js\<close> gives the string of an ASCII
  literal of the source.
\<close>

type_synonym byte = "8 word"
type_synonym bytes = "byte list"
type_synonym jsstring = "16 word list"

definition js :: "string \<Rightarrow> jsstring" where
  "js s = map of_char s"

text \<open>
  \<^verbatim>\<open>new TextEncoder().encode(s)\<close> is the UTF-8 encoding of the code points of \<open>s\<close>: a high
  surrogate followed by a low surrogate is one code point above \<open>0xFFFF\<close>, and a surrogate
  that is not part of such a pair is replaced by \<open>U+FFFD\<close>, whose encoding is
  \<open>EF BF BD\<close>. Two different strings can therefore have the same encoding.
\<close>

definition utf8 :: "int \<Rightarrow> bytes" where
  "utf8 cp =
     (if cp < 0x80 then [of_int cp]
      else if cp < 0x800 then [of_int (0xC0 + cp div 0x40), of_int (0x80 + cp mod 0x40)]
      else if cp < 0x10000 then
        [of_int (0xE0 + cp div 0x1000), of_int (0x80 + cp div 0x40 mod 0x40),
         of_int (0x80 + cp mod 0x40)]
      else
        [of_int (0xF0 + cp div 0x40000), of_int (0x80 + cp div 0x1000 mod 0x40),
         of_int (0x80 + cp div 0x40 mod 0x40), of_int (0x80 + cp mod 0x40)])"

definition high_surrogate :: "16 word \<Rightarrow> bool" where
  "high_surrogate u \<longleftrightarrow> 0xD800 \<le> uint u \<and> uint u \<le> 0xDBFF"

definition low_surrogate :: "16 word \<Rightarrow> bool" where
  "low_surrogate u \<longleftrightarrow> 0xDC00 \<le> uint u \<and> uint u \<le> 0xDFFF"

fun TextEncoder_encode :: "jsstring \<Rightarrow> bytes" where
  "TextEncoder_encode [] = []"
| "TextEncoder_encode [u] =
     (if high_surrogate u \<or> low_surrogate u then [0xEF, 0xBF, 0xBD] else utf8 (uint u))"
| "TextEncoder_encode (u # l # rest) =
     (if high_surrogate u \<and> low_surrogate l then
        utf8 (0x10000 + (uint u - 0xD800) * 0x400 + (uint l - 0xDC00)) @ TextEncoder_encode rest
      else if high_surrogate u \<or> low_surrogate u then
        [0xEF, 0xBF, 0xBD] @ TextEncoder_encode (l # rest)
      else utf8 (uint u) @ TextEncoder_encode (l # rest))"

text \<open>
  \<^verbatim>\<open>JPakeErrors.mts\<close>: the four error classes of the package, each with its message.
  \<^verbatim>\<open>LibraryError\<close> stands for a plain \<^verbatim>\<open>Error\<close> thrown inside \<^verbatim>\<open>@noble/curves\<close>;
  it is none of the package's classes.
\<close>

datatype error =
    JPakeError string
  | InvalidStateError string
  | InvalidArgumentError string
  | VerificationError string
  | LibraryError

text \<open>Sequencing of a computation that may throw.\<close>

definition bind :: "error + 'a \<Rightarrow> ('a \<Rightarrow> error + 'b) \<Rightarrow> error + 'b" where
  "bind m f = (case m of Inl e \<Rightarrow> Inl e | Inr v \<Rightarrow> f v)"

text \<open>A library call that throws: \<open>None\<close> becomes the library's error.\<close>

definition lib :: "'a option \<Rightarrow> error + 'a" where
  "lib m = (case m of None \<Rightarrow> Inl LibraryError | Some v \<Rightarrow> Inr v)"

section \<open>Big-endian integers (\<^verbatim>\<open>@noble/curves/abstract/utils\<close>)\<close>

text \<open>\<^verbatim>\<open>bytesToNumberBE\<close>: the unsigned big-endian value of a byte array.\<close>

definition bytesToNumberBE :: "bytes \<Rightarrow> int" where
  "bytesToNumberBE bs = foldl (\<lambda>acc b. acc * 256 + uint b) 0 bs"

text \<open>
  \<^verbatim>\<open>numberToBytesBE(k, len)\<close> pads the hexadecimal digits of \<open>k\<close> to \<open>2 * len\<close> digits and
  reads them as bytes: for \<open>0 \<le> k < 256 ^ len\<close> this is the big-endian encoding of \<open>k\<close>
  on exactly \<open>len\<close> bytes. Padding never truncates, so a larger \<open>k\<close> gives more than
  \<open>len\<close> bytes; every call site reduces its argument modulo the group order first.
\<close>

function be_digits :: "int \<Rightarrow> bytes" where
  "be_digits k = (if k \<le> 0 then [] else be_digits (k div 256) @ [word_of_int (k mod 256)])"
  by pat_completeness auto
termination
  by (relation "measure nat") auto

declare be_digits.simps [simp del]

definition numberToBytesBE :: "int \<Rightarrow> nat \<Rightarrow> bytes" where
  "numberToBytesBE k len = (let ds = be_digits k in replicate (len - length ds) 0 @ ds)"

section \<open>The curve library as a parameter\<close>

text \<open>
  \<^verbatim>\<open>@noble/curves/secp256k1\<close> and \<^verbatim>\<open>@noble/hashes/sha3\<close> are not part of the package.
  Their operations are the fields of a record; a point of type \<open>'p\<close> is a group element
  (a projective point up to its representation). Calls that can throw return an option.

  \<^item> \<open>CURVE_n\<close> is \<^verbatim>\<open>secp256k1.CURVE.n\<close> (\<^verbatim>\<open>n\<close> of \<^verbatim>\<open>constants.mts\<close>), \<open>BASE\<close> is
    \<^verbatim>\<open>secp256k1.ProjectivePoint.BASE\<close> (\<^verbatim>\<open>G\<close> of \<^verbatim>\<open>constants.mts\<close>), \<open>ZERO\<close> is
    \<^verbatim>\<open>secp256k1.ProjectivePoint.ZERO\<close>;
  \<^item> \<open>add\<close>, \<open>subtract\<close>, \<open>multiply\<close>, \<open>equals\<close>, \<open>toAffine\<close>, \<open>toRawBytes\<close> are the methods
    of a point (\<open>toRawBytes\<close> is the compressed form: the argument \<^verbatim>\<open>true\<close> is also the
    default), \<open>fromHex\<close> is \<^verbatim>\<open>secp256k1.ProjectivePoint.fromHex\<close>;
  \<^item> \<open>sha3_256\<close> is the hash.
\<close>

record 'p curve =
  CURVE_n :: int
  BASE :: 'p
  ZERO :: 'p
  add :: "'p \<Rightarrow> 'p \<Rightarrow> 'p"
  subtract :: "'p \<Rightarrow> 'p \<Rightarrow> 'p"
  multiply :: "'p \<Rightarrow> int \<Rightarrow> 'p option"
  equals :: "'p \<Rightarrow> 'p \<Rightarrow> bool"
  toAffine :: "'p \<Rightarrow> int \<times> int"
  toRawBytes :: "'p \<Rightarrow> bytes option"
  fromHex :: "bytes \<Rightarrow> 'p option"
  sha3_256 :: "bytes \<Rightarrow> bytes"

text \<open>
  \<^verbatim>\<open>mod(a, b)\<close> of \<^verbatim>\<open>@noble/curves/abstract/modular\<close>: the remainder of \<^verbatim>\<open>a % b\<close>, made
  non-negative by adding \<open>b\<close>. JavaScript's \<^verbatim>\<open>%\<close> truncates towards zero.
\<close>

definition js_rem :: "int \<Rightarrow> int \<Rightarrow> int" where
  "js_rem a b = sgn a * (\<bar>a\<bar> mod \<bar>b\<bar>)"

definition mod_noble :: "int \<Rightarrow> int \<Rightarrow> int" where
  "mod_noble a b = (let result = js_rem a b in if result \<ge> 0 then result else b + result)"

section \<open>Schnorr proofs (\<^verbatim>\<open>schnorr.mts\<close>)\<close>

text \<open>One length-prefixed \<^verbatim>\<open>otherInfo\<close> element; the prefix is a single byte.\<close>

definition encodeInfo :: "jsstring \<Rightarrow> error + bytes" where
  "encodeInfo info =
     (let infoBytes = TextEncoder_encode info in
      if length infoBytes > 255 then
        Inl (InvalidArgumentError
          ''Each otherInfo string must be 255 bytes or less when UTF-8 encoded.'')
      else Inr (of_nat (length infoBytes) # infoBytes))"

text \<open>\<^verbatim>\<open>otherInfo.map(...)\<close>: the first element that is too long throws.\<close>

fun encodeInfos :: "jsstring list \<Rightarrow> error + bytes list" where
  "encodeInfos [] = Inr []"
| "encodeInfos (info # rest) =
     bind (encodeInfo info) (\<lambda>b. bind (encodeInfos rest) (\<lambda>bs. Inr (b # bs)))"

text \<open>The default value \<^verbatim>\<open>[]\<close> of an \<^verbatim>\<open>otherInfo\<close> parameter that is undefined.\<close>

definition defaultInfo :: "jsstring list option \<Rightarrow> jsstring list" where
  "defaultInfo oi = (case oi of None \<Rightarrow> [] | Some l \<Rightarrow> l)"

definition generateSchnorrChallenge ::
  "'p curve \<Rightarrow> jsstring \<Rightarrow> 'p \<Rightarrow> 'p \<Rightarrow> jsstring list option \<Rightarrow> error + int" where
  "generateSchnorrChallenge L uid gx gr oi =
     (let userIdBytes = TextEncoder_encode uid in
      bind (lib (toRawBytes L gx)) (\<lambda>gxBytes.
      bind (lib (toRawBytes L gr)) (\<lambda>grBytes.
      if length userIdBytes > 255 then
        Inl (InvalidArgumentError
          ''userId is too long. It must be 255 bytes or less when UTF-8 encoded.'')
      else if length gxBytes > 255 then
        Inl (InvalidArgumentError ''gxBytes is too long. It must be 255 bytes or less.'')
      else if length grBytes > 255 then
        Inl (InvalidArgumentError ''grBytes is too long. It must be 255 bytes or less.'')
      else
        bind (encodeInfos (defaultInfo oi)) (\<lambda>infos.
        Inr (mod_noble
          (bytesToNumberBE (sha3_256 L
             ([of_nat (length gxBytes)] @ gxBytes @
              [of_nat (length grBytes)] @ grBytes @
              [of_nat (length userIdBytes)] @ userIdBytes @
              concat infos)))
          (CURVE_n L))))))"

text \<open>
  \<^verbatim>\<open>proof[i]\<close> on a \<^verbatim>\<open>Uint8Array\<close>: \<^verbatim>\<open>undefined\<close> beyond the end. In
  \<open>verifySchnorrProof\<close> the slice of \<open>r\<close> is taken after \<^verbatim>\<open>rLength\<close> was found to be 32.
\<close>

definition at :: "bytes \<Rightarrow> nat \<Rightarrow> nat option" where
  "at bs i = (if i < length bs then Some (unat (bs ! i)) else None)"

text \<open>\<^verbatim>\<open>bs.slice(i, j)\<close> for \<open>i \<le> j\<close>.\<close>

definition sliceBytes :: "bytes \<Rightarrow> nat \<Rightarrow> nat \<Rightarrow> bytes" where
  "sliceBytes bs i j = take (j - i) (drop i bs)"

definition verifySchnorrProof ::
  "'p curve \<Rightarrow> jsstring \<Rightarrow> 'p \<Rightarrow> bytes \<Rightarrow> 'p \<Rightarrow> jsstring list option \<Rightarrow> error + bool" where
  "verifySchnorrProof L peerUserId gx prf g oi =
     (if length prf \<noteq> 33 + 32 + 2 then
        Inl (VerificationError ''Invalid proof, must be 33 + 32 + 2 bytes long'')
      else
        let VLength = unat (prf ! 0);
            rLength = at prf (1 + VLength) in
        if VLength \<noteq> 33 \<or> rLength \<noteq> Some 32 then
          Inl (VerificationError ''Invalid proof, V must be 33 bytes and r must be 32 bytes'')
        else
          case fromHex L (sliceBytes prf 1 (1 + VLength)) of
            None \<Rightarrow> Inr False
          | Some V \<Rightarrow>
              let rLen = 32;
                  r = bytesToNumberBE (sliceBytes prf (1 + VLength + 1) (1 + VLength + 1 + rLen)) in
              bind (generateSchnorrChallenge L peerUserId gx V oi) (\<lambda>c.
              bind (lib (multiply L g r)) (\<lambda>gr.
              bind (lib (multiply L gx c)) (\<lambda>gxc.
              let leftSideAffine = toAffine L V;
                  rightSideAffine = toAffine L (add L gr gxc) in
              Inr (fst leftSideAffine = fst rightSideAffine \<and>
                   snd leftSideAffine = snd rightSideAffine)))))"

text \<open>
  \<^verbatim>\<open>generateSchnorrProof\<close>. The bytes returned by the call of
  \<^verbatim>\<open>secp256k1.utils.randomPrivateKey()\<close> are the extra argument \<open>vb\<close>.
\<close>

definition generateSchnorrProof ::
  "'p curve \<Rightarrow> jsstring \<Rightarrow> bytes \<Rightarrow> 'p \<Rightarrow> 'p \<Rightarrow> jsstring list option \<Rightarrow> bytes \<Rightarrow> error + bytes" where
  "generateSchnorrProof L uid x gx g oi vb =
     (let v = bytesToNumberBE vb in
      bind (lib (multiply L g v)) (\<lambda>V.
      bind (generateSchnorrChallenge L uid gx V oi) (\<lambda>challenge.
      let r = numberToBytesBE (mod_noble (v - bytesToNumberBE x * challenge) (CURVE_n L)) 32 in
      bind (lib (toRawBytes L V)) (\<lambda>Vbytes.
      if length Vbytes \<noteq> 33 \<or> length r \<noteq> 32 then
        Inl (JPakeError
          ''Generated proof is invalid, V and r must be 33 and 32 bytes respectively'')
      else
        let prf = [of_nat (length Vbytes)] @ Vbytes @ [of_nat (length r)] @ r in
        bind (verifySchnorrProof L uid gx prf g oi) (\<lambda>isValidProof.
        if \<not> isValidProof then Inl (JPakeError ''Generated Schnorr proof is invalid'')
        else Inr prf)))))"

section \<open>The session (\<^verbatim>\<open>JPake.mts\<close>)\<close>

text \<open>
  The fields of the two messages are optional: the argument checks of \<^verbatim>\<open>round2\<close> and
  \<^verbatim>\<open>setRound2ResultFromBob\<close> test them for \<^verbatim>\<open>undefined\<close>.
\<close>

record Round1Result =
  r1_G1 :: "bytes option"
  r1_G2 :: "bytes option"
  r1_ZKPx1 :: "bytes option"
  r1_ZKPx2 :: "bytes option"

record Round2Result =
  r2_A :: "bytes option"
  r2_ZKPx2s :: "bytes option"

datatype JPakeState =
  INITIAL | ROUND1FINISHED | ROUND2FINISHED | ROUND2RESULTSRECEIVED | KEYDERIVED

text \<open>The numeric value of the enum member.\<close>

fun state_value :: "JPakeState \<Rightarrow> nat" where
  "state_value INITIAL = 0"
| "state_value ROUND1FINISHED = 1"
| "state_value ROUND2FINISHED = 2"
| "state_value ROUND2RESULTSRECEIVED = 3"
| "state_value KEYDERIVED = 4"

record 'p JPake =
  userId :: jsstring
  otherInfo :: "jsstring list option"
  state :: JPakeState
  x1 :: "bytes option"
  x2 :: "bytes option"
  G1 :: "'p option"
  G2 :: "'p option"
  G3 :: "'p option"
  G4 :: "'p option"
  B :: "'p option"
  x2s :: "bytes option"
  ZKPx2sBob :: "bytes option"
  bobUserId :: "jsstring option"

definition new_JPake :: "jsstring \<Rightarrow> jsstring list option \<Rightarrow> error + 'p JPake" where
  "new_JPake uid oi =
     (if uid = [] then Inl (InvalidArgumentError ''UserId cannot be empty'')
      else Inr \<lparr>userId = uid, otherInfo = oi, state = INITIAL, x1 = None, x2 = None,
                G1 = None, G2 = None, G3 = None, G4 = None, B = None, x2s = None,
                ZKPx2sBob = None, bobUserId = None\<rparr>)"

definition getState :: "'p JPake \<Rightarrow> JPakeState" where
  "getState this = state this"

definition verifyPeerProof ::
  "'p curve \<Rightarrow> 'p JPake \<Rightarrow> jsstring \<Rightarrow> 'p \<Rightarrow> bytes \<Rightarrow> 'p \<Rightarrow> error + bool" where
  "verifyPeerProof L this peerUserId gx prf g =
     (if userId this = peerUserId then
        Inl (VerificationError ''Proof verification failed, userIds are equal.'')
      else if peerUserId = [] then Inl (InvalidArgumentError ''PeerUserId is empty.'')
      else verifySchnorrProof L peerUserId gx prf g (otherInfo this))"

text \<open>
  Every operation returns what it returns or throws, together with the session as the call
  leaves it. The arguments \<open>x1b\<close>, \<open>x2b\<close>, \<open>v1b\<close>, \<open>v2b\<close> of \<open>round1\<close> are the four results of
  \<^verbatim>\<open>randomPrivateKey()\<close> in the order of the calls: two in \<open>round1\<close> itself, then one in
  each \<open>generateSchnorrProof\<close>. The test \<^verbatim>\<open>!this.G1 || !this.G2 || !ZKPx1 || !ZKPx2\<close> follows
  the assignments of all four, which are objects: it never throws and has no branch here.
  The state is assigned before the \<^verbatim>\<open>return\<close> statement encodes the two points.
\<close>

definition round1 ::
  "'p curve \<Rightarrow> 'p JPake \<Rightarrow> bytes \<Rightarrow> bytes \<Rightarrow> bytes \<Rightarrow> bytes \<Rightarrow> (error + Round1Result) \<times> 'p JPake" where
  "round1 L this x1b x2b v1b v2b =
     (if state this \<noteq> INITIAL then
        (Inl (InvalidStateError ''Round 1 can only be executed in INITIAL state''), this)
      else
        let this1 = this\<lparr>x1 := Some x1b, x2 := Some x2b\<rparr> in
        (case multiply L (BASE L) (bytesToNumberBE x1b) of
          None \<Rightarrow> (Inl LibraryError, this1)
        | Some g1 \<Rightarrow>
            let this2 = this1\<lparr>G1 := Some g1\<rparr> in
            (case multiply L (BASE L) (bytesToNumberBE x2b) of
              None \<Rightarrow> (Inl LibraryError, this2)
            | Some g2 \<Rightarrow>
                let this3 = this2\<lparr>G2 := Some g2\<rparr> in
                (case generateSchnorrProof L (userId this3) x1b g1 (BASE L) (otherInfo this3) v1b of
                  Inl e \<Rightarrow> (Inl e, this3)
                | Inr zkp1 \<Rightarrow>
                    (case generateSchnorrProof L (userId this3) x2b g2 (BASE L) (otherInfo this3) v2b of
                      Inl e \<Rightarrow> (Inl e, this3)
                    | Inr zkp2 \<Rightarrow>
                        let this4 = this3\<lparr>state := ROUND1FINISHED\<rparr> in
                        (case toRawBytes L g1 of
                          None \<Rightarrow> (Inl LibraryError, this4)
                        | Some g1Bytes \<Rightarrow>
                            (case toRawBytes L g2 of
                              None \<Rightarrow> (Inl LibraryError, this4)
                            | Some g2Bytes \<Rightarrow>
                                (Inr \<lparr>r1_G1 = Some g1Bytes, r1_G2 = Some g2Bytes,
                                      r1_ZKPx1 = Some zkp1, r1_ZKPx2 = Some zkp2\<rparr>, this4))))))))"

text \<open>
  \<open>round2\<close>: \<open>vb\<close> is the result of \<^verbatim>\<open>randomPrivateKey()\<close> in its one call of
  \<open>generateSchnorrProof\<close>. A \<^verbatim>\<open>Uint8Array\<close> is an object, so \<^verbatim>\<open>!s\<close> holds for a missing
  \<open>s\<close> only; \<^verbatim>\<open>!bobUserId\<close> holds for the empty string. The test \<^verbatim>\<open>!A || !ZKPx2s\<close> is on
  two objects and has no branch here. A field is read with \<open>the\<close> only after the test
  that it is present.
\<close>

definition round2 ::
  "'p curve \<Rightarrow> 'p JPake \<Rightarrow> Round1Result \<Rightarrow> bytes option \<Rightarrow> jsstring \<Rightarrow> bytes \<Rightarrow>
     (error + Round2Result) \<times> 'p JPake" where
  "round2 L this round1ResultBob s peerId vb =
     (if state this \<noteq> ROUND1FINISHED then
        (Inl (InvalidStateError ''Round 2 can only be executed after Round 1''), this)
      else if r1_G1 round1ResultBob = None \<or> r1_G2 round1ResultBob = None \<or>
              r1_ZKPx1 round1ResultBob = None \<or> r1_ZKPx2 round1ResultBob = None \<or>
              s = None \<or> peerId = [] then
        (Inl (InvalidArgumentError ''Missing required arguments for round 2''), this)
      else if x2 this = None \<or> G1 this = None then
        (Inl (JPakeError ''Missing required data for round 2''), this)
      else
        (case fromHex L (the (r1_G1 round1ResultBob)) of
          None \<Rightarrow>
            (Inl (InvalidArgumentError
               ''Invalid points received: G1 or G2 is not a valid ProjectivePoint''), this)
        | Some round1ResultBobG1 \<Rightarrow>
            (case fromHex L (the (r1_G2 round1ResultBob)) of
              None \<Rightarrow>
                (Inl (InvalidArgumentError
                   ''Invalid points received: G1 or G2 is not a valid ProjectivePoint''), this)
            | Some round1ResultBobG2 \<Rightarrow>
                let sBigInt = bytesToNumberBE (the s) in
                if mod_noble sBigInt (CURVE_n L) = 0 then
                  (Inl (InvalidArgumentError ''Invalid s: s MUST not be equal to 0 mod n''), this)
                else
                  let this1 = this\<lparr>bobUserId := Some peerId\<rparr> in
                  (case verifyPeerProof L this1 peerId round1ResultBobG1
                          (the (r1_ZKPx1 round1ResultBob)) (BASE L) of
                    Inl e \<Rightarrow> (Inl e, this1)
                  | Inr isValidZKP \<Rightarrow>
                      if \<not> isValidZKP then
                        (Inl (VerificationError ''ZKP verification failed''), this1)
                      else
                        let this2 = this1\<lparr>G3 := Some round1ResultBobG1,
                                           G4 := Some round1ResultBobG2\<rparr>;
                            x2sb = numberToBytesBE
                                     (mod_noble (bytesToNumberBE (the (x2 this2)) * sBigInt)
                                        (CURVE_n L)) 32;
                            this3 = this2\<lparr>x2s := Some x2sb\<rparr>;
                            generator = add L (add L (the (G1 this3)) round1ResultBobG1)
                                          round1ResultBobG2 in
                        (case multiply L generator (bytesToNumberBE x2sb) of
                          None \<Rightarrow> (Inl LibraryError, this3)
                        | Some A \<Rightarrow>
                            (case generateSchnorrProof L (userId this3) x2sb A generator
                                    (otherInfo this3) vb of
                              Inl e \<Rightarrow> (Inl e, this3)
                            | Inr zkp \<Rightarrow>
                                if equals L generator (ZERO L) then
                                  (Inl (VerificationError
                                     ''Invalid point: The new generator is the point at infinity''),
                                   this3)
                                else
                                  let this4 = this3\<lparr>state := ROUND2FINISHED\<rparr> in
                                  (case toRawBytes L A of
                                    None \<Rightarrow> (Inl LibraryError, this4)
                                  | Some aBytes \<Rightarrow>
                                      (Inr \<lparr>r2_A = Some aBytes, r2_ZKPx2s = Some zkp\<rparr>,
                                       this4))))))))"

text \<open>\<open>setRound2ResultFromBob\<close>: the decoding of \<^verbatim>\<open>A\<close> is not in a \<^verbatim>\<open>try\<close>.\<close>

definition setRound2ResultFromBob ::
  "'p curve \<Rightarrow> 'p JPake \<Rightarrow> Round2Result \<Rightarrow> (error + unit) \<times> 'p JPake" where
  "setRound2ResultFromBob L this round2ResultBob =
     (if state this \<noteq> ROUND2FINISHED then
        (Inl (InvalidStateError ''Round 2 results can only be set after Round 2 is finished''),
         this)
      else if r2_A round2ResultBob = None \<or> r2_ZKPx2s round2ResultBob = None then
        (Inl (InvalidArgumentError ''Missing required arguments for setRound2ResultFromBob''),
         this)
      else
        (case fromHex L (the (r2_A round2ResultBob)) of
          None \<Rightarrow> (Inl LibraryError, this)
        | Some b \<Rightarrow>
            (Inr (), this\<lparr>B := Some b, ZKPx2sBob := r2_ZKPx2s round2ResultBob,
                          state := ROUND2RESULTSRECEIVED\<rparr>)))"

text \<open>
  \<open>deriveSharedKey\<close>. \<^verbatim>\<open>!this.bobUserId\<close> holds for a missing and for an empty string. The
  test \<^verbatim>\<open>!sharedSecret\<close> is on an object and has no branch here.
\<close>

definition deriveSharedKey :: "'p curve \<Rightarrow> 'p JPake \<Rightarrow> (error + bytes) \<times> 'p JPake" where
  "deriveSharedKey L this =
     (if state this \<noteq> ROUND2RESULTSRECEIVED then
        (Inl (InvalidStateError
           ''Shared key can only be derived after receiving Round 2 results''), this)
      else if B this = None \<or> G1 this = None \<or> G2 this = None \<or> G3 this = None \<or>
              G4 this = None \<or> x2 this = None \<or> x2s this = None \<or> ZKPx2sBob this = None \<or>
              bobUserId this = None \<or> bobUserId this = Some [] then
        (Inl (JPakeError ''Missing required data for key derivation''), this)
      else if equals L (the (B this)) (ZERO L) then
        (Inl (VerificationError ''Invalid point: B is the point at infinity''), this)
      else
        let generator = add L (add L (the (G1 this)) (the (G3 this))) (the (G2 this)) in
        (case verifyPeerProof L this (the (bobUserId this)) (the (B this))
                (the (ZKPx2sBob this)) generator of
          Inl e \<Rightarrow> (Inl e, this)
        | Inr isValidZKP \<Rightarrow>
            if \<not> isValidZKP then (Inl (VerificationError ''ZKP verification failed''), this)
            else
              (case multiply L (the (G4 this)) (bytesToNumberBE (the (x2s this))) of
                None \<Rightarrow> (Inl LibraryError, this)
              | Some g4x2s \<Rightarrow>
                  (case multiply L (subtract L (the (B this)) g4x2s)
                          (bytesToNumberBE (the (x2 this))) of
                    None \<Rightarrow> (Inl LibraryError, this)
                  | Some Ka \<Rightarrow>
                      (case toRawBytes L Ka of
                        None \<Rightarrow> (Inl LibraryError, this)
                      | Some sharedSecret \<Rightarrow>
                          (Inr (sha3_256 L sharedSecret), this\<lparr>state := KEYDERIVED\<rparr>))))))"

section \<open>Password to scalar (\<^verbatim>\<open>deriveSFromPassword.mts\<close>)\<close>

text \<open>
  The \<^verbatim>\<open>while\<close> loop hashes the same string, the password followed by \<^verbatim>\<open>retried\<close>, in
  every iteration. It has no bound, so the function is partial: \<open>None\<close> is the run that
  never returns.
\<close>

partial_function (option) retry_loop :: "'p curve \<Rightarrow> jsstring \<Rightarrow> int \<Rightarrow> int option" where
  "retry_loop L password s =
     (if s = 0 then
        retry_loop L password
          (mod_noble (bytesToNumberBE (sha3_256 L (TextEncoder_encode (password @ (js ''retried'')))))
             (CURVE_n L))
      else Some s)"

definition deriveSFromPassword :: "'p curve \<Rightarrow> jsstring \<Rightarrow> (error + bytes) option" where
  "deriveSFromPassword L password =
     (if password = [] then Some (Inl (InvalidArgumentError ''Missing password''))
      else
        case retry_loop L password
               (mod_noble (bytesToNumberBE (sha3_256 L (TextEncoder_encode password))) (CURVE_n L)) of
          None \<Rightarrow> None
        | Some s \<Rightarrow> Some (Inr (numberToBytesBE s 32)))"

section \<open>Sequences of calls\<close>

text \<open>
  A caller may invoke the four public operations in any order and with any arguments; a
  call that throws leaves the session as the model returns it, and the caller may go on.
\<close>

datatype call =
    Round1 bytes bytes bytes bytes
  | Round2 Round1Result "bytes option" jsstring bytes
  | SetRound2ResultFromBob Round2Result
  | DeriveSharedKey

datatype result = Round1Out Round1Result | Round2Out Round2Result | Done | SharedKey bytes

fun exec_call :: "'p curve \<Rightarrow> 'p JPake \<Rightarrow> call \<Rightarrow> (error + result) \<times> 'p JPake" where
  "exec_call L this (Round1 x1b x2b v1b v2b) =
     (let (r, this') = round1 L this x1b x2b v1b v2b in (map_sum id Round1Out r, this'))"
| "exec_call L this (Round2 r1 s peerId vb) =
     (let (r, this') = round2 L this r1 s peerId vb in (map_sum id Round2Out r, this'))"
| "exec_call L this (SetRound2ResultFromBob r2) =
     (let (r, this') = setRound2ResultFromBob L this r2 in (map_sum id (\<lambda>_. Done) r, this'))"
| "exec_call L this DeriveSharedKey =
     (let (r, this') = deriveSharedKey L this in (map_sum id SharedKey r, this'))"

fun run_calls :: "'p curve \<Rightarrow> 'p JPake \<Rightarrow> call list \<Rightarrow> 'p JPake" where
  "run_calls L this [] = this"
| "run_calls L this (c # cs) = run_calls L (snd (exec_call L this c)) cs"

text \<open>The state in which the operation passes its first check.\<close>

fun source_state :: "call \<Rightarrow> JPakeState" where
  "source_state (Round1 _ _ _ _) = INITIAL"
| "source_state (Round2 _ _ _ _) = ROUND1FINISHED"
| "source_state (SetRound2ResultFromBob _) = ROUND2FINISHED"
| "source_state DeriveSharedKey = ROUND2RESULTSRECEIVED"

section \<open>What is assumed of the library\<close>

text \<open>\<open>smul L P k\<close> is the sum of \<open>k\<close> copies of \<open>P\<close>, built from the library's addition.\<close>

fun smul :: "'p curve \<Rightarrow> 'p \<Rightarrow> nat \<Rightarrow> 'p" where
  "smul L P 0 = ZERO L"
| "smul L P (Suc k) = add L P (smul L P k)"

text \<open>
  The contract of a library for a curve of prime order \<open>n\<close> below \<open>2 ^ 256\<close>:
  \<^item> the points are a commutative group under \<open>add\<close> with unit \<open>ZERO\<close>, and \<open>subtract\<close> undoes
    \<open>add\<close>;
  \<^item> \<open>multiply P k\<close> returns for \<open>1 \<le> k < n\<close>, and what it returns is the \<open>k\<close>-fold sum;
    whether it returns for another \<open>k\<close> is left open (\<^verbatim>\<open>@noble/curves\<close> throws there);
  \<^item> \<open>n\<close> is prime, \<open>n\<close> copies of a point sum to \<open>ZERO\<close>, and no fewer do unless the point is
    \<open>ZERO\<close>;
  \<^item> \<open>equals\<close> is equality of points and \<open>toAffine\<close> separates points;
  \<^item> a point other than \<open>ZERO\<close> has a compressed encoding of 33 bytes, which \<open>fromHex\<close>
    decodes to the point; nothing is assumed of \<open>toRawBytes ZERO\<close>; \<open>fromHex\<close> never
    returns \<open>ZERO\<close>;
  \<^item> the hash has 32 bytes.
\<close>

definition curve_ok :: "'p curve \<Rightarrow> bool" where
  "curve_ok L \<longleftrightarrow>
     1 < CURVE_n L \<and> CURVE_n L < 2 ^ 256 \<and>
     (\<forall>a b. CURVE_n L dvd a * b \<longrightarrow> CURVE_n L dvd a \<or> CURVE_n L dvd b) \<and>
     (\<forall>P Q R. add L (add L P Q) R = add L P (add L Q R)) \<and>
     (\<forall>P Q. add L P Q = add L Q P) \<and>
     (\<forall>P. add L (ZERO L) P = P) \<and>
     (\<forall>P Q. add L (subtract L P Q) Q = P) \<and>
     (\<forall>P k. 1 \<le> k \<and> k < CURVE_n L \<longrightarrow> multiply L P k \<noteq> None) \<and>
     (\<forall>P k Q. multiply L P k = Some Q \<longrightarrow> Q = smul L P (nat (k mod CURVE_n L))) \<and>
     (\<forall>P. smul L P (nat (CURVE_n L)) = ZERO L) \<and>
     (\<forall>P k. smul L P k = ZERO L \<longrightarrow> P = ZERO L \<or> CURVE_n L dvd int k) \<and>
     BASE L \<noteq> ZERO L \<and>
     (\<forall>P Q. equals L P Q \<longleftrightarrow> P = Q) \<and>
     (\<forall>P Q. toAffine L P = toAffine L Q \<longrightarrow> P = Q) \<and>
     (\<forall>P. P \<noteq> ZERO L \<longrightarrow>
        (\<exists>bs. toRawBytes L P = Some bs \<and> length bs = 33 \<and> fromHex L bs = Some P)) \<and>
     (\<forall>bs P. fromHex L bs = Some P \<longrightarrow> P \<noteq> ZERO L) \<and>
     (\<forall>bs. length (sha3_256 L bs) = 32)"

text \<open>
  The result of \<^verbatim>\<open>secp256k1.utils.randomPrivateKey()\<close>: 32 bytes, a scalar in \<open>[1, n)\<close>
  (the comment in \<open>round1\<close>).
\<close>

definition private_key :: "'p curve \<Rightarrow> bytes \<Rightarrow> bool" where
  "private_key L kb \<longleftrightarrow>
     length kb = 32 \<and> 1 \<le> bytesToNumberBE kb \<and> bytesToNumberBE kb < CURVE_n L"

section \<open>A small library that meets the contract\<close>

text \<open>
  The cyclic group of order 7, written additively, in place of the curve. A point other
  than \<open>P0\<close> is encoded as the byte 2 followed by its index on 32 bytes; \<open>multiply\<close>
  refuses a scalar outside \<open>[1, 7)\<close> and \<open>toRawBytes\<close> refuses \<open>P0\<close>, as the real library
  does; the hash is the first byte times the sum of the bytes modulo 256, on 32 bytes.
\<close>

datatype pt7 = P0 | P1 | P2 | P3 | P4 | P5 | P6

fun idx7 :: "pt7 \<Rightarrow> nat" where
  "idx7 P0 = 0" | "idx7 P1 = 1" | "idx7 P2 = 2" | "idx7 P3 = 3"
| "idx7 P4 = 4" | "idx7 P5 = 5" | "idx7 P6 = 6"

definition pt7_of :: "nat \<Rightarrow> pt7" where
  "pt7_of k = [P0, P1, P2, P3, P4, P5, P6] ! (k mod 7)"

definition toy :: "pt7 curve" where
  "toy = \<lparr>
     CURVE_n = 7,
     BASE = P1,
     ZERO = P0,
     add = (\<lambda>P Q. pt7_of (idx7 P + idx7 Q)),
     subtract = (\<lambda>P Q. pt7_of (idx7 P + (7 - idx7 Q))),
     multiply = (\<lambda>P k. if 1 \<le> k \<and> k < 7 then Some (pt7_of (idx7 P * nat k)) else None),
     equals = (\<lambda>P Q. P = Q),
     toAffine = (\<lambda>P. (int (idx7 P), int (idx7 P))),
     toRawBytes = (\<lambda>P. if P = P0 then None else Some (2 # numberToBytesBE (int (idx7 P)) 32)),
     fromHex = (\<lambda>bs.
       if length bs = 33 \<and> hd bs = 2 \<and> 1 \<le> bytesToNumberBE (tl bs) \<and> bytesToNumberBE (tl bs) < 7
       then Some (pt7_of (nat (bytesToNumberBE (tl bs)))) else None),
     sha3_256 = (\<lambda>bs.
       numberToBytesBE
         ((case bs of [] \<Rightarrow> 0 | b # _ \<Rightarrow> uint b) * (sum_list (map uint bs) mod 256)) 32)\<rparr>"

text \<open>The scalar \<open>k\<close> as a private key of 32 bytes.\<close>

definition key :: "int \<Rightarrow> bytes" where
  "key k = numberToBytesBE k 32"

text \<open>Two fresh sessions, as the constructor returns them.\<close>

definition alice0 :: "pt7 JPake" where
  "alice0 = projr (new_JPake (js ''Alice'') None)"

definition bob0 :: "pt7 JPake" where
  "bob0 = projr (new_JPake (js ''Bob'') None)"

text \<open>
  One complete exchange with this library. Alice draws \<open>x1 = 1\<close>, \<open>x2 = 2\<close>, Bob draws
  \<open>x1 = 3\<close>, \<open>x2 = 5\<close>, the shared secret is \<open>s = 3\<close>; \<open>toy_proof v r\<close> is the Schnorr
  proof with \<open>V\<close> the point of index \<open>v\<close> and the response \<open>r\<close>.
\<close>

definition toy_proof :: "int \<Rightarrow> int \<Rightarrow> bytes" where
  "toy_proof v r = 33 # 2 # key v @ 32 # key r"

definition alice1 :: "pt7 JPake" where
  "alice1 = alice0\<lparr>state := ROUND1FINISHED, x1 := Some (key 1), x2 := Some (key 2),
                    G1 := Some P1, G2 := Some P2\<rparr>"

definition aliceR1 :: Round1Result where
  "aliceR1 = \<lparr>r1_G1 = Some (2 # key 1), r1_G2 = Some (2 # key 2),
               r1_ZKPx1 = Some (toy_proof 2 6), r1_ZKPx2 = Some (toy_proof 1 2)\<rparr>"

definition bob1 :: "pt7 JPake" where
  "bob1 = bob0\<lparr>state := ROUND1FINISHED, x1 := Some (key 3), x2 := Some (key 5),
                G1 := Some P3, G2 := Some P5\<rparr>"

definition bobR1 :: Round1Result where
  "bobR1 = \<lparr>r1_G1 = Some (2 # key 3), r1_G2 = Some (2 # key 5),
             r1_ZKPx1 = Some (toy_proof 1 3), r1_ZKPx2 = Some (toy_proof 2 5)\<rparr>"

definition alice2 :: "pt7 JPake" where
  "alice2 = alice1\<lparr>state := ROUND2FINISHED, G3 := Some P3, G4 := Some P5,
                    x2s := Some (key 6), bobUserId := Some (js ''Bob'')\<rparr>"

definition aliceR2 :: Round2Result where
  "aliceR2 = \<lparr>r2_A = Some (2 # key 5), r2_ZKPx2s = Some (toy_proof 2 3)\<rparr>"

definition bob2 :: "pt7 JPake" where
  "bob2 = bob1\<lparr>state := ROUND2FINISHED, G3 := Some P1, G4 := Some P2,
                x2s := Some (key 1), bobUserId := Some (js ''Alice'')\<rparr>"

definition bobR2 :: Round2Result where
  "bobR2 = \<lparr>r2_A = Some (2 # key 6), r2_ZKPx2s = Some (toy_proof 5 5)\<rparr>"

definition alice3 :: "pt7 JPake" where
  "alice3 = alice2\<lparr>state := ROUND2RESULTSRECEIVED, B := Some P6,
                    ZKPx2sBob := Some (toy_proof 5 5)\<rparr>"

definition bob3 :: "pt7 JPake" where
  "bob3 = bob2\<lparr>state := ROUND2RESULTSRECEIVED, B := Some P5,
                ZKPx2sBob := Some (toy_proof 2 3)\<rparr>"

section \<open>Sessions a caller can obtain\<close>



text \<open>The two scalars \<open>deriveSFromPassword\<close> can compute: before the loop and inside it.\<close>

definition first_hash :: "'p curve \<Rightarrow> jsstring \<Rightarrow> int" where
  "first_hash L password =
     mod_noble (bytesToNumberBE (sha3_256 L (TextEncoder_encode password))) (CURVE_n L)"

definition retry_hash :: "'p curve \<Rightarrow> jsstring \<Rightarrow> int" where
  "retry_hash L password =
     mod_noble (bytesToNumberBE (sha3_256 L (TextEncoder_encode (password @ (js ''retried'')))))
       (CURVE_n L)"

text \<open>
  The multiple of a point by an integer scalar, reduced modulo the order: by the contract
  it is what \<open>multiply\<close> returns whenever it returns.
\<close>

definition zmul :: "'p curve \<Rightarrow> 'p \<Rightarrow> int \<Rightarrow> 'p" where
  "zmul L P k = smul L P (nat (k mod CURVE_n L))"

text \<open>
  A round-1 message of Bob for \<open>x1 = 2\<close>, \<open>x2 = 4\<close>: with Alice's \<open>x1 = 1\<close> the three
  points \<open>G1\<close>, \<open>G3\<close>, \<open>G4\<close> sum to the point at infinity.
\<close>

definition bobR1_inf :: Round1Result where
  "bobR1_inf = \<lparr>r1_G1 = Some (2 # key 2), r1_G2 = Some (2 # key 4),
                 r1_ZKPx1 = Some (toy_proof 1 3), r1_ZKPx2 = Some (toy_proof 3 4)\<rparr>"

text \<open>
  A second exchange with the same library, in which Bob draws \<open>x1 = 6\<close>, the opposite of
  Alice's \<open>x1 = 1\<close> modulo the group order 7, and \<open>x2 = 5\<close>; the shared secret is again
  \<open>s = 3\<close>.
\<close>

definition bob1_neg :: "pt7 JPake" where
  "bob1_neg = bob0\<lparr>state := ROUND1FINISHED, x1 := Some (key 6), x2 := Some (key 5),
                    G1 := Some P6, G2 := Some P5\<rparr>"

definition bobR1_neg :: Round1Result where
  "bobR1_neg = \<lparr>r1_G1 = Some (2 # key 6), r1_G2 = Some (2 # key 5),
                 r1_ZKPx1 = Some (toy_proof 1 6), r1_ZKPx2 = Some (toy_proof 2 5)\<rparr>"

definition alice2_neg :: "pt7 JPake" where
  "alice2_neg = alice1\<lparr>state := ROUND2FINISHED, G3 := Some P6, G4 := Some P5,
                        x2s := Some (key 6), bobUserId := Some (js ''Bob'')\<rparr>"

definition aliceR2_neg :: Round2Result where
  "aliceR2_neg = \<lparr>r2_A = Some (2 # key 2), r2_ZKPx2s = Some (toy_proof 5 3)\<rparr>"

definition bob2_neg :: "pt7 JPake" where
  "bob2_neg = bob1_neg\<lparr>state := ROUND2FINISHED, G3 := Some P1, G4 := Some P2,
                        x2s := Some (key 1), bobUserId := Some (js ''Alice'')\<rparr>"

definition bobR2_neg :: Round2Result where
  "bobR2_neg = \<lparr>r2_A = Some (2 # key 2), r2_ZKPx2s = Some (toy_proof 2 4)\<rparr>"

definition alice3_neg :: "pt7 JPake" where
  "alice3_neg = alice2_neg\<lparr>state := ROUND2RESULTSRECEIVED, B := Some P2,
                            ZKPx2sBob := Some (toy_proof 2 4)\<rparr>"

definition bob3_neg :: "pt7 JPake" where
  "bob3_neg = bob2_neg\<lparr>state := ROUND2RESULTSRECEIVED, B := Some P2,
                        ZKPx2sBob := Some (toy_proof 5 3)\<rparr>"

section \<open>Sequencing and the byte encodings\<close>

lemma js_empty_iff [simp]: "js s = [] \<longleftrightarrow> s = []"
  by (simp add: js_def)

lemma bind_Inl_iff: "bind m f = Inl e \<longleftrightarrow> m = Inl e \<or> (\<exists>v. m = Inr v \<and> f v = Inl e)"
  by (cases m) (auto simp: bind_def)

lemma bind_Inr_iff: "bind m f = Inr r \<longleftrightarrow> (\<exists>v. m = Inr v \<and> f v = Inr r)"
  by (cases m) (auto simp: bind_def)

lemma bind_Inr [simp]: "bind (Inr v) f = f v"
  by (simp add: bind_def)

lemma bind_Inl [simp]: "bind (Inl e) f = Inl e"
  by (simp add: bind_def)

lemma lib_Inl_iff: "lib m = Inl e \<longleftrightarrow> m = None \<and> e = LibraryError"
  by (cases m) (auto simp: lib_def)

lemma lib_Inr_iff: "lib m = Inr v \<longleftrightarrow> m = Some v"
  by (cases m) (auto simp: lib_def)

lemma lib_Some [simp]: "lib (Some v) = Inr v"
  by (simp add: lib_def)

lemma lib_None [simp]: "lib None = Inl LibraryError"
  by (simp add: lib_def)

lemma js_rem_nonneg: "0 \<le> a \<Longrightarrow> js_rem a b = a mod \<bar>b\<bar>"
  by (cases "a = 0") (simp_all add: js_rem_def)

lemma mod_noble_eq: "0 < b \<Longrightarrow> mod_noble a b = a mod b"
proof (cases "0 \<le> a")
  case True
  assume "0 < b"
  with True show ?thesis by (simp add: mod_noble_def js_rem_nonneg Let_def)
next
  case False
  assume b: "0 < b"
  from False have a: "a < 0" by simp
  have r: "js_rem a b = - ((- a) mod b)" using a b by (simp add: js_rem_def)
  show ?thesis
  proof (cases "(- a) mod b = 0")
    case True
    then have "b dvd a" by (simp add: dvd_eq_mod_eq_0[symmetric] )
    then show ?thesis using True r by (simp add: mod_noble_def Let_def)
  next
    case False
    have "0 < (-a) mod b" using False b
      by (simp add: order.strict_iff_order)
    moreover have "a mod b = b - (- a) mod b"
      using False zmod_zminus1_eq_if[of "-a" b] by simp
    ultimately show ?thesis using r by (simp add: mod_noble_def Let_def)
  qed
qed

lemma bytesToNumberBE_append:
  "bytesToNumberBE (xs @ [b]) = bytesToNumberBE xs * 256 + uint b"
  by (simp add: bytesToNumberBE_def)

lemma bytesToNumberBE_replicate0: "bytesToNumberBE (replicate k 0 @ xs) = bytesToNumberBE xs"
proof -
  have "foldl (\<lambda>acc b. acc * 256 + uint (b::byte)) 0 (replicate k 0) = 0"
    by (induction k) simp_all
  then show ?thesis by (simp add: bytesToNumberBE_def)
qed

lemma bytesToNumberBE_be_digits: "0 \<le> k \<Longrightarrow> bytesToNumberBE (be_digits k) = k"
proof (induction k rule: be_digits.induct)
  case (1 k)
  show ?case
  proof (cases "k \<le> 0")
    case True
    with 1(2) have "k = 0" by simp
    then show ?thesis by (simp add: be_digits.simps bytesToNumberBE_def)
  next
    case False
    have u: "uint (word_of_int (k mod 256) :: byte) = k mod 256"
      by (simp add: uint_word_of_int take_bit_eq_mod)
    have "bytesToNumberBE (be_digits k) =
            bytesToNumberBE (be_digits (k div 256)) * 256 + k mod 256"
      using False u by (subst be_digits.simps) (simp add: bytesToNumberBE_append)
    also have "\<dots> = (k div 256) * 256 + k mod 256" using 1 False by simp
    also have "\<dots> = k" by simp
    finally show ?thesis .
  qed
qed

lemma bytesToNumberBE_numberToBytesBE:
  "0 \<le> k \<Longrightarrow> bytesToNumberBE (numberToBytesBE k len) = k"
  by (simp add: numberToBytesBE_def Let_def bytesToNumberBE_replicate0 bytesToNumberBE_be_digits)

lemma length_be_digits: "k < 256 ^ m \<Longrightarrow> length (be_digits k) \<le> m"
proof (induction k arbitrary: m rule: be_digits.induct)
  case (1 k)
  show ?case
  proof (cases "k \<le> 0")
    case True
    then show ?thesis by (simp add: be_digits.simps)
  next
    case False
    then obtain m' where m: "m = Suc m'" using 1(2) by (cases m) auto
    define M :: int where "M = 256 ^ m'"
    have "k < 256 * M" using 1(2) m by (simp add: M_def)
    then have "k div 256 < M" by presburger
    then have "k div 256 < 256 ^ m'" by (simp add: M_def)
    then have "length (be_digits (k div 256)) \<le> m'" using 1(1) False by simp
    then show ?thesis using False m by (subst be_digits.simps) simp
  qed
qed

lemma length_numberToBytesBE:
  assumes "0 \<le> k" "k < 256 ^ len"
  shows "length (numberToBytesBE k len) = len"
proof -
  have "length (be_digits k) \<le> len" using assms(2) by (rule length_be_digits)
  then show ?thesis by (simp add: numberToBytesBE_def Let_def)
qed

section \<open>The state machine\<close>

lemma encodeInfo_not_state: "encodeInfo i \<noteq> Inl (InvalidStateError m)"
  by (simp add: encodeInfo_def Let_def)

lemma encodeInfos_not_state: "encodeInfos is \<noteq> Inl (InvalidStateError m)"
  by (induction "is") (auto simp: bind_Inl_iff encodeInfo_not_state)

lemma challenge_not_state:
  "generateSchnorrChallenge L uid gx gr oi \<noteq> Inl (InvalidStateError m)"
  by (auto simp: generateSchnorrChallenge_def Let_def bind_Inl_iff lib_Inl_iff
        encodeInfos_not_state split: if_splits)

lemma verify_not_state: "verifySchnorrProof L uid gx prf g oi \<noteq> Inl (InvalidStateError m)"
  by (auto simp: verifySchnorrProof_def Let_def bind_Inl_iff lib_Inl_iff challenge_not_state
        split: if_splits option.splits)

lemma generate_not_state:
  "generateSchnorrProof L uid x gx g oi vb \<noteq> Inl (InvalidStateError m)"
  by (auto simp: generateSchnorrProof_def Let_def bind_Inl_iff lib_Inl_iff challenge_not_state
        verify_not_state split: if_splits option.splits)

lemma verifyPeer_not_state: "verifyPeerProof L this uid gx prf g \<noteq> Inl (InvalidStateError m)"
  by (auto simp: verifyPeerProof_def verify_not_state)

lemma round1_wrong_state:
  "state this \<noteq> INITIAL \<Longrightarrow>
   round1 L this a b c d =
     (Inl (InvalidStateError ''Round 1 can only be executed in INITIAL state''), this)"
  by (simp add: round1_def)

lemma round2_wrong_state:
  "state this \<noteq> ROUND1FINISHED \<Longrightarrow>
   round2 L this r s u v =
     (Inl (InvalidStateError ''Round 2 can only be executed after Round 1''), this)"
  by (simp add: round2_def)

lemma set_wrong_state:
  "state this \<noteq> ROUND2FINISHED \<Longrightarrow>
   setRound2ResultFromBob L this r =
     (Inl (InvalidStateError ''Round 2 results can only be set after Round 2 is finished''),
      this)"
  by (simp add: setRound2ResultFromBob_def)

lemma derive_wrong_state:
  "state this \<noteq> ROUND2RESULTSRECEIVED \<Longrightarrow>
   deriveSharedKey L this =
     (Inl (InvalidStateError ''Shared key can only be derived after receiving Round 2 results''),
      this)"
  by (simp add: deriveSharedKey_def)

lemma round1_right_state:
  "state this = INITIAL \<Longrightarrow> fst (round1 L this a b c d) \<noteq> Inl (InvalidStateError m)"
  by (auto simp: round1_def Let_def generate_not_state split: option.splits sum.splits)

lemma round2_right_state:
  "state this = ROUND1FINISHED \<Longrightarrow> fst (round2 L this r s u v) \<noteq> Inl (InvalidStateError m)"
  by (auto simp: round2_def Let_def generate_not_state verifyPeer_not_state
        split: option.splits sum.splits)

lemma set_right_state:
  "state this = ROUND2FINISHED \<Longrightarrow>
   fst (setRound2ResultFromBob L this r) \<noteq> Inl (InvalidStateError m)"
  by (auto simp: setRound2ResultFromBob_def Let_def split: option.splits sum.splits)

lemma derive_right_state:
  "state this = ROUND2RESULTSRECEIVED \<Longrightarrow>
   fst (deriveSharedKey L this) \<noteq> Inl (InvalidStateError m)"
  by (auto simp: deriveSharedKey_def Let_def verifyPeer_not_state
        split: option.splits sum.splits)

text \<open>The state after a call is the state before it or the one that follows it.\<close>

lemma round1_state:
  "state (snd (round1 L this a b c d)) = state this \<or>
   (state this = INITIAL \<and> state (snd (round1 L this a b c d)) = ROUND1FINISHED)"
  by (auto simp: round1_def Let_def split: option.splits sum.splits)

lemma round2_state:
  "state (snd (round2 L this r s u v)) = state this \<or>
   (state this = ROUND1FINISHED \<and> state (snd (round2 L this r s u v)) = ROUND2FINISHED)"
  by (auto simp: round2_def Let_def split: option.splits sum.splits)

lemma set_state:
  "state (snd (setRound2ResultFromBob L this r)) = state this \<or>
   (state this = ROUND2FINISHED \<and>
    state (snd (setRound2ResultFromBob L this r)) = ROUND2RESULTSRECEIVED)"
  by (auto simp: setRound2ResultFromBob_def Let_def split: option.splits sum.splits)

lemma derive_state:
  "state (snd (deriveSharedKey L this)) = state this \<or>
   (state this = ROUND2RESULTSRECEIVED \<and> state (snd (deriveSharedKey L this)) = KEYDERIVED)"
  by (auto simp: deriveSharedKey_def Let_def split: option.splits sum.splits)

lemma exec_call_state_mono:
  "state_value (state this) \<le> state_value (state (snd (exec_call L this cl)))"
proof (cases cl)
  case (Round1 a b e d)
  then show ?thesis using round1_state[of L this a b e d]
    by (auto simp: split_beta)
next
  case (Round2 r s u v)
  then show ?thesis using round2_state[of L this r s u v]
    by (auto simp: split_beta)
next
  case (SetRound2ResultFromBob r)
  then show ?thesis using set_state[of L this r]
    by (auto simp: split_beta)
next
  case DeriveSharedKey
  then show ?thesis using derive_state[of L this]
    by (auto simp: split_beta)
qed

lemma run_calls_state_mono:
  "state_value (state this) \<le> state_value (state (run_calls L this cs))"
proof (induction cs arbitrary: this)
  case Nil
  show ?case by simp
next
  case (Cons c cs)
  have "state_value (state this) \<le> state_value (state (snd (exec_call L this c)))"
    by (rule exec_call_state_mono)
  also have "\<dots> \<le> state_value (state (run_calls L (snd (exec_call L this c)) cs))"
    by (rule Cons.IH)
  finally show ?case by simp
qed

lemma exec_call_wrong_state:
  "state this \<noteq> source_state c \<Longrightarrow> \<exists>m. exec_call L this c = (Inl (InvalidStateError m), this)"
  by (cases c)
     (simp_all add: round1_wrong_state round2_wrong_state set_wrong_state derive_wrong_state)

lemma exec_call_right_state:
  assumes "state this = source_state cl"
  shows "fst (exec_call L this cl) \<noteq> Inl (InvalidStateError m)"
proof (cases cl)
  case (Round1 a b e d)
  with assms show ?thesis using round1_right_state[of this L a b e d m]
    by (cases "fst (round1 L this a b e d)") (auto simp: split_beta)
next
  case (Round2 r s u v)
  with assms show ?thesis using round2_right_state[of this L r s u v m]
    by (cases "fst (round2 L this r s u v)") (auto simp: split_beta)
next
  case (SetRound2ResultFromBob r)
  with assms show ?thesis using set_right_state[of this L r m]
    by (cases "fst (setRound2ResultFromBob L this r)") (auto simp: split_beta)
next
  case DeriveSharedKey
  with assms show ?thesis using derive_right_state[of this L m]
    by (cases "fst (deriveSharedKey L this)") (auto simp: split_beta)
qed

text \<open>
  C3. Each operation passes its state check in one state only: round1 in INITIAL, round2
  in ROUND1FINISHED, setRound2ResultFromBob in ROUND2FINISHED, deriveSharedKey in
  ROUND2RESULTSRECEIVED. In any other state the call throws InvalidStateError and returns
  the session with every field as it was; in its own state it throws no InvalidStateError.
  Over any sequence of calls, with any arguments and whether or not they throw, the value
  of the state never decreases.
\<close>

theorem state_machine:
  "(state this \<noteq> source_state c \<longrightarrow>
      (\<exists>m. exec_call L this c = (Inl (InvalidStateError m), this))) \<and>
   (state this = source_state c \<longrightarrow>
      (\<forall>m. fst (exec_call L this c) \<noteq> Inl (InvalidStateError m))) \<and>
   state_value (state this) \<le> state_value (state (run_calls L this cs))"
  using exec_call_wrong_state[of this c L] exec_call_right_state[of this c L]
    run_calls_state_mono[of this L cs]
  by blast

theorem state_machine_witness:
  "state alice0 \<noteq> source_state DeriveSharedKey \<and>
   (\<exists>m. exec_call toy alice0 DeriveSharedKey = (Inl (InvalidStateError m), alice0)) \<and>
   state alice0 = source_state (Round1 (key 1) (key 2) (key 3) (key 4)) \<and>
   (\<forall>m. fst (exec_call toy alice0 (Round1 (key 1) (key 2) (key 3) (key 4)))
          \<noteq> Inl (InvalidStateError m)) \<and>
   state_value (state alice0) \<le>
     state_value (state (run_calls toy alice0
       [DeriveSharedKey, Round1 (key 1) (key 2) (key 3) (key 4)]))"
proof -
  have s: "state alice0 = INITIAL" by (simp add: alice0_def new_JPake_def)
  show ?thesis
    using s state_machine[of alice0 DeriveSharedKey toy
            "[DeriveSharedKey, Round1 (key 1) (key 2) (key 3) (key 4)]"]
      state_machine[of alice0 "Round1 (key 1) (key 2) (key 3) (key 4)" toy "[]"]
    by simp
qed

section \<open>The small library meets the contract\<close>

lemma idx7_lt: "idx7 P < 7"
  by (cases P) simp_all

lemma idx7_pt7_of: "idx7 (pt7_of k) = k mod 7"
proof -
  have "k mod 7 < 7" by simp
  then have "k mod 7 \<in> {0, 1, 2, 3, 4, 5, 6}" by auto
  then show ?thesis by (auto simp: pt7_of_def)
qed

lemma pt7_of_idx7: "pt7_of (idx7 P) = P"
  by (cases P) (simp_all add: pt7_of_def)

lemma pt7_of_mod: "pt7_of (k mod 7) = pt7_of k"
  by (simp add: pt7_of_def)

lemma pt7_of_eq_iff: "pt7_of a = pt7_of b \<longleftrightarrow> a mod 7 = b mod 7"
  by (metis idx7_pt7_of pt7_of_mod)

lemma pt7_of_P0_iff: "pt7_of a = P0 \<longleftrightarrow> 7 dvd a"
  using pt7_of_eq_iff[of a 0] by (simp add: pt7_of_def dvd_eq_mod_eq_0)

lemma idx7_inj: "idx7 P = idx7 Q \<Longrightarrow> P = Q"
  by (metis pt7_of_idx7)

lemma seven_prime_nat: "7 dvd a * b \<Longrightarrow> 7 dvd a \<or> 7 dvd (b::nat)"
proof -
  assume d: "7 dvd a * b"
  have "a mod 7 < 7" "b mod 7 < 7" by simp_all
  then have ab: "a mod 7 \<in> {0, 1, 2, 3, 4, 5, 6}" "b mod 7 \<in> {0, 1, 2, 3, 4, 5, 6}" by auto
  have "(a mod 7) * (b mod 7) mod 7 = 0" using d by (simp add: mod_mult_eq dvd_eq_mod_eq_0)
  with ab have "a mod 7 = 0 \<or> b mod 7 = 0" by auto
  then show ?thesis by (simp add: dvd_eq_mod_eq_0)
qed

lemma seven_prime_int: "7 dvd a * b \<Longrightarrow> 7 dvd a \<or> 7 dvd (b::int)"
proof -
  assume d: "7 dvd a * b"
  have a: "a mod 7 = 0 \<or> a mod 7 = 1 \<or> a mod 7 = 2 \<or> a mod 7 = 3 \<or> a mod 7 = 4 \<or>
           a mod 7 = 5 \<or> a mod 7 = 6" by presburger
  have b: "b mod 7 = 0 \<or> b mod 7 = 1 \<or> b mod 7 = 2 \<or> b mod 7 = 3 \<or> b mod 7 = 4 \<or>
           b mod 7 = 5 \<or> b mod 7 = 6" by presburger
  have "(a mod 7) * (b mod 7) mod 7 = 0" using d by (simp add: mod_mult_eq dvd_eq_mod_eq_0)
  with a b have "a mod 7 = 0 \<or> b mod 7 = 0" by auto
  then show ?thesis by (simp add: dvd_eq_mod_eq_0)
qed

lemma toy_fields:
  "CURVE_n toy = 7" "BASE toy = P1" "ZERO toy = P0"
  "add toy P Q = pt7_of (idx7 P + idx7 Q)"
  "subtract toy P Q = pt7_of (idx7 P + (7 - idx7 Q))"
  "multiply toy P k = (if 1 \<le> k \<and> k < 7 then Some (pt7_of (idx7 P * nat k)) else None)"
  "equals toy P Q = (P = Q)"
  "toAffine toy P = (int (idx7 P), int (idx7 P))"
  "toRawBytes toy P = (if P = P0 then None else Some (2 # numberToBytesBE (int (idx7 P)) 32))"
  "fromHex toy bs =
     (if length bs = 33 \<and> hd bs = 2 \<and> 1 \<le> bytesToNumberBE (tl bs) \<and> bytesToNumberBE (tl bs) < 7
      then Some (pt7_of (nat (bytesToNumberBE (tl bs)))) else None)"
  "sha3_256 toy bs =
     numberToBytesBE
       ((case bs of [] \<Rightarrow> 0 | b # _ \<Rightarrow> uint b) * (sum_list (map uint bs) mod 256)) 32"
  by (simp_all add: toy_def)

lemma smul_toy: "smul toy P k = pt7_of (idx7 P * k)"
proof (induction k)
  case 0
  show ?case by (simp add: toy_fields pt7_of_def)
next
  case (Suc k)
  have "smul toy P (Suc k) = pt7_of (idx7 P + idx7 (pt7_of (idx7 P * k)))"
    using Suc by (simp add: toy_fields)
  also have "\<dots> = pt7_of (idx7 P + idx7 P * k)"
    by (simp add: pt7_of_eq_iff idx7_pt7_of mod_add_right_eq)
  finally show ?case by simp
qed

lemma toy_ok: "curve_ok toy"
  unfolding curve_ok_def
proof (intro conjI allI impI)
  show "1 < CURVE_n toy" "CURVE_n toy < 2 ^ 256" "BASE toy \<noteq> ZERO toy" by (simp_all add: toy_fields)
next
  fix a b assume "CURVE_n toy dvd a * b"
  then show "CURVE_n toy dvd a \<or> CURVE_n toy dvd b" using seven_prime_int[of a b] by (simp add: toy_fields)
next
  fix P Q R show "add toy (add toy P Q) R = add toy P (add toy Q R)"
    by (simp add: toy_fields pt7_of_eq_iff idx7_pt7_of mod_add_left_eq mod_add_right_eq add.assoc)
next
  fix P Q show "add toy P Q = add toy Q P" by (simp add: toy_fields add.commute)
next
  fix P show "add toy (ZERO toy) P = P" by (simp add: toy_fields pt7_of_idx7)
next
  fix P Q
  have "idx7 Q < 7" by (rule idx7_lt)
  then have "(idx7 P + (7 - idx7 Q) + idx7 Q) mod 7 = idx7 P mod 7" by simp
  then have "pt7_of (idx7 (pt7_of (idx7 P + (7 - idx7 Q))) + idx7 Q) = pt7_of (idx7 P)"
    by (simp add: pt7_of_eq_iff idx7_pt7_of mod_add_left_eq)
  then show "add toy (subtract toy P Q) Q = P" by (simp add: toy_fields pt7_of_idx7)
next
  fix P k assume "1 \<le> k \<and> k < CURVE_n toy"
  then show "multiply toy P k \<noteq> None" by (simp add: toy_fields)
next
  fix P k Q assume "multiply toy P k = Some Q"
  then have k: "1 \<le> k" "k < 7" and Q: "Q = pt7_of (idx7 P * nat k)"
    by (auto simp: toy_fields split: if_splits)
  have "k mod 7 = k" using k by simp
  then show "Q = smul toy P (nat (k mod CURVE_n toy))" using Q by (simp add: smul_toy toy_fields)
next
  fix P show "smul toy P (nat (CURVE_n toy)) = ZERO toy"
    by (simp add: smul_toy toy_fields pt7_of_P0_iff)
next
  fix P k assume "smul toy P k = ZERO toy"
  then have "7 dvd idx7 P * k" by (simp add: smul_toy toy_fields pt7_of_P0_iff)
  then have "7 dvd idx7 P \<or> 7 dvd k" by (rule seven_prime_nat)
  moreover have "7 dvd idx7 P \<Longrightarrow> P = P0" by (cases P) simp_all
  ultimately show "P = ZERO toy \<or> CURVE_n toy dvd int k"
    by (auto simp: toy_fields)
next
  fix P Q show "equals toy P Q \<longleftrightarrow> P = Q" by (simp add: toy_fields)
next
  fix P Q assume "toAffine toy P = toAffine toy Q"
  then show "P = Q" by (simp add: toy_fields idx7_inj)
next
  fix P assume "P \<noteq> ZERO toy"
  then have P: "P \<noteq> P0" by (simp add: toy_fields)
  then have i: "1 \<le> idx7 P" by (cases P) simp_all
  have l: "length (numberToBytesBE (int (idx7 P)) 32) = 32"
    using idx7_lt[of P] by (intro length_numberToBytesBE) simp_all
  have v: "bytesToNumberBE (numberToBytesBE (int (idx7 P)) 32) = int (idx7 P)"
    by (simp add: bytesToNumberBE_numberToBytesBE)
  show "\<exists>bs. toRawBytes toy P = Some bs \<and> length bs = 33 \<and> fromHex toy bs = Some P"
    using P i l v idx7_lt[of P] by (simp add: toy_fields pt7_of_idx7)
next
  fix bs P assume "fromHex toy bs = Some P"
  then have k: "1 \<le> bytesToNumberBE (tl bs)" "bytesToNumberBE (tl bs) < 7"
    and P: "P = pt7_of (nat (bytesToNumberBE (tl bs)))"
    by (auto simp: toy_fields split: if_splits)
  have "0 < nat (bytesToNumberBE (tl bs))" "nat (bytesToNumberBE (tl bs)) < 7" using k by simp_all
  then have "\<not> 7 dvd nat (bytesToNumberBE (tl bs))" by (simp add: nat_dvd_not_less)
  then show "P \<noteq> ZERO toy" using P by (simp add: toy_fields pt7_of_P0_iff)
next
  fix bs :: bytes
  define f where "f = (case bs of [] \<Rightarrow> 0 | b # _ \<Rightarrow> uint b)"
  define t where "t = sum_list (map uint bs) mod 256"
  have f: "0 \<le> f" "f < 256"
    using uint_lt2p[where 'a = 8] by (auto simp: f_def split: list.splits)
  have t: "0 \<le> t" "t < 256" by (simp_all add: t_def)
  have "f * t \<le> 255 * 255" using f t by (intro mult_mono) simp_all
  then have "0 \<le> f * t" "f * t < 256 ^ 32" using f t by simp_all
  then have "length (numberToBytesBE (f * t) 32) = 32" by (rule length_numberToBytesBE)
  then show "length (sha3_256 toy bs) = 32" by (simp add: toy_fields f_def t_def)
qed

section \<open>One exchange with the small library\<close>

lemma toy_id_length:
  "length (TextEncoder_encode (js ''Alice'')) \<le> 255"
  "length (TextEncoder_encode (js ''Bob'')) \<le> 255"
  by code_simp+

text \<open>
  The encoding does not determine the string: the two unpaired surrogates \<open>0xD800\<close> and
  \<open>0xDC00\<close> are different strings with the same bytes.
\<close>

lemma TextEncoder_encode_not_injective:
  "TextEncoder_encode [0xD800] = TextEncoder_encode [0xDC00] \<and> [0xD800 :: 16 word] \<noteq> [0xDC00]"
  by code_simp

lemma toy_alice_new: "new_JPake (js ''Alice'') None = Inr alice0"
  by (simp add: new_JPake_def alice0_def)

lemma toy_bob_new: "new_JPake (js ''Bob'') None = Inr bob0"
  by (simp add: new_JPake_def bob0_def)

lemma toy_alice_round1:
  "round1 toy alice0 (key 1) (key 2) (key 2) (key 1) = (Inr aliceR1, alice1)"
  by code_simp

lemma toy_bob_round1:
  "round1 toy bob0 (key 3) (key 5) (key 1) (key 2) = (Inr bobR1, bob1)"
  by code_simp

lemma toy_alice_round2:
  "round2 toy alice1 bobR1 (Some (key 3)) (js ''Bob'') (key 1) = (Inr aliceR2, alice2)"
  by code_simp

lemma toy_bob_round2:
  "round2 toy bob1 aliceR1 (Some (key 3)) (js ''Alice'') (key 2) = (Inr bobR2, bob2)"
  by code_simp

lemma toy_alice_set: "setRound2ResultFromBob toy alice2 bobR2 = (Inr (), alice3)"
  by code_simp

lemma toy_bob_set: "setRound2ResultFromBob toy bob2 aliceR2 = (Inr (), bob3)"
  by code_simp

lemma toy_alice_derive:
  "deriveSharedKey toy alice3 = (Inr (key 6), alice3\<lparr>state := KEYDERIVED\<rparr>)"
  by code_simp

lemma toy_bob_derive:
  "deriveSharedKey toy bob3 = (Inr (key 6), bob3\<lparr>state := KEYDERIVED\<rparr>)"
  by code_simp




section \<open>The point received in round 2\<close>










section \<open>The peer's proofs in round 2\<close>

lemma round2_ignores_ZKPx2:
  "round2 L this (r\<lparr>r1_ZKPx2 := Some z\<rparr>) s u v = round2 L this (r\<lparr>r1_ZKPx2 := Some z'\<rparr>) s u v"
  by (simp add: round2_def Let_def cong: option.case_cong sum.case_cong if_cong)

text \<open>
  C2. \<open>round2\<close> checks \<^verbatim>\<open>ZKPx1\<close> against \<^verbatim>\<open>G3\<close> and never reads \<^verbatim>\<open>ZKPx2\<close> beyond
  the test that it is present. Here Bob's message carries a \<^verbatim>\<open>ZKPx2\<close> that
  \<open>verifySchnorrProof\<close> rejects for \<^verbatim>\<open>G4\<close>, and \<open>round2\<close> returns its result as it does
  for the valid message.
\<close>

theorem round2_accepts_invalid_ZKPx2:
  "verifySchnorrProof toy (js ''Bob'') P5 (toy_proof 2 4) (BASE toy) None = Inr False \<and>
   fromHex toy (the (r1_G2 bobR1)) = Some P5 \<and>
   round2 toy alice1 (bobR1\<lparr>r1_ZKPx2 := Some (toy_proof 2 4)\<rparr>) (Some (key 3)) (js ''Bob'') (key 1)
     = (Inr aliceR2, alice2)"
proof -
  have "verifySchnorrProof toy (js ''Bob'') P5 (toy_proof 2 4) (BASE toy) None = Inr False"
    by code_simp
  moreover have "fromHex toy (the (r1_G2 bobR1)) = Some P5" by code_simp
  moreover have "bobR1 = bobR1\<lparr>r1_ZKPx2 := Some (toy_proof 2 5)\<rparr>" by (simp add: bobR1_def)
  then have "round2 toy alice1 (bobR1\<lparr>r1_ZKPx2 := Some (toy_proof 2 4)\<rparr>) (Some (key 3)) (js ''Bob'') (key 1)
     = (Inr aliceR2, alice2)"
    using round2_ignores_ZKPx2[where L = toy and this = alice1 and r = bobR1 and z = "toy_proof 2 4"
        and z' = "toy_proof 2 5" and s = "Some (key 3)" and u = "(js ''Bob'')" and v = "key 1"]
      toy_alice_round2 by simp
  ultimately show ?thesis by simp
qed

theorem round2_accepts_invalid_ZKPx2_witness:
  "verifySchnorrProof toy (js ''Bob'') (the (fromHex toy (the (r1_G2 bobR1)))) (toy_proof 2 4)
     (BASE toy) None = Inr False \<and>
   fst (round2 toy alice1 (bobR1\<lparr>r1_ZKPx2 := Some (toy_proof 2 4)\<rparr>) (Some (key 3)) (js ''Bob'')
          (key 1)) = Inr aliceR2 \<and>
   state (snd (round2 toy alice1 (bobR1\<lparr>r1_ZKPx2 := Some (toy_proof 2 4)\<rparr>) (Some (key 3))
                 (js ''Bob'') (key 1))) = ROUND2FINISHED"
  using round2_accepts_invalid_ZKPx2 by (simp add: alice2_def)

section \<open>Failures and the state\<close>

lemma round2_verification_state:
  assumes "state this = ROUND1FINISHED"
    and "round2 L this r s peerId vb = (Inl (VerificationError m), this')"
  shows "state this' = ROUND1FINISHED \<and> bobUserId this' = Some peerId"
  using assms
  by (auto simp: round2_def Let_def split: option.splits sum.splits if_splits)

text \<open>
  C9. When \<open>round2\<close>, called in ROUND1FINISHED, throws a VerificationError, the state is
  still ROUND1FINISHED and \<open>bobUserId\<close> holds the identifier the caller supplied; a later
  call of \<open>round2\<close> on that session passes the state check.
\<close>

theorem round2_retry_after_verification_error:
  assumes "state this = ROUND1FINISHED"
    and "round2 L this r s peerId vb = (Inl (VerificationError m), this')"
  shows "state this' = ROUND1FINISHED \<and> bobUserId this' = Some peerId \<and>
         (\<forall>r' s' peerId' vb' m'.
            fst (round2 L this' r' s' peerId' vb') \<noteq> Inl (InvalidStateError m'))"
  using round2_verification_state[OF assms] round2_right_state[of this' L] by blast

lemma toy_round2_equal_ids:
  "round2 toy alice1 bobR1 (Some (key 3)) (js ''Alice'') (key 1) =
     (Inl (VerificationError ''Proof verification failed, userIds are equal.''),
      alice1\<lparr>bobUserId := Some (js ''Alice'')\<rparr>)"
  by code_simp

lemma toy_round2_invalid_zkp:
  "round2 toy alice1 aliceR1 (Some (key 3)) (js ''Bob'') (key 1) =
     (Inl (VerificationError ''ZKP verification failed''), alice1\<lparr>bobUserId := Some (js ''Bob'')\<rparr>)"
  by code_simp

theorem round2_retry_after_verification_error_witness:
  "state alice1 = ROUND1FINISHED \<and>
   round2 toy alice1 bobR1 (Some (key 3)) (js ''Alice'') (key 1) =
     (Inl (VerificationError ''Proof verification failed, userIds are equal.''),
      alice1\<lparr>bobUserId := Some (js ''Alice'')\<rparr>) \<and>
   state (alice1\<lparr>bobUserId := Some (js ''Alice'')\<rparr>) = ROUND1FINISHED \<and>
   bobUserId (alice1\<lparr>bobUserId := Some (js ''Alice'')\<rparr>) = Some (js ''Alice'') \<and>
   (\<forall>r' s' peerId' vb' m'.
      fst (round2 toy (alice1\<lparr>bobUserId := Some (js ''Alice'')\<rparr>) r' s' peerId' vb')
        \<noteq> Inl (InvalidStateError m'))"
proof -
  have s: "state alice1 = ROUND1FINISHED" by (simp add: alice1_def)
  show ?thesis
    using s toy_round2_equal_ids round2_retry_after_verification_error[OF s toy_round2_equal_ids]
    by simp
qed

lemma generate_encodes:
  "generateSchnorrProof L uid x gx g oi vb = Inr p \<Longrightarrow> toRawBytes L gx \<noteq> None"
  by (auto simp: generateSchnorrProof_def generateSchnorrChallenge_def Let_def bind_Inr_iff
        lib_Inr_iff)

lemma round1_error_state:
  "fst (round1 L this a b e d) = Inl err \<Longrightarrow> state (snd (round1 L this a b e d)) = state this"
  by (auto simp: round1_def Let_def split: option.splits sum.splits dest: generate_encodes)

lemma round2_error_state:
  "fst (round2 L this r s u v) = Inl err \<Longrightarrow> state (snd (round2 L this r s u v)) = state this"
  by (auto simp: round2_def Let_def split: option.splits sum.splits if_splits
        dest: generate_encodes)

lemma set_error_state:
  "fst (setRound2ResultFromBob L this r) = Inl err \<Longrightarrow>
   state (snd (setRound2ResultFromBob L this r)) = state this"
  by (auto simp: setRound2ResultFromBob_def Let_def split: option.splits sum.splits if_splits)

lemma derive_error_state:
  "fst (deriveSharedKey L this) = Inl err \<Longrightarrow> state (snd (deriveSharedKey L this)) = state this"
  by (auto simp: deriveSharedKey_def Let_def split: option.splits sum.splits if_splits)

lemma exec_call_error_state:
  assumes "fst (exec_call L this cl) = Inl err"
  shows "state (snd (exec_call L this cl)) = state this"
proof (cases cl)
  case (Round1 a b e d)
  with assms show ?thesis using round1_error_state[of L this a b e d err]
    by (cases "fst (round1 L this a b e d)") (auto simp: split_beta)
next
  case (Round2 r s u v)
  with assms show ?thesis using round2_error_state[of L this r s u v err]
    by (cases "fst (round2 L this r s u v)") (auto simp: split_beta)
next
  case (SetRound2ResultFromBob r)
  with assms show ?thesis using set_error_state[of L this r err]
    by (cases "fst (setRound2ResultFromBob L this r)") (auto simp: split_beta)
next
  case DeriveSharedKey
  with assms show ?thesis using derive_error_state[of L this err]
    by (cases "fst (deriveSharedKey L this)") (auto simp: split_beta)
qed

text \<open>
  C4, as amended. An error is not fatal to the session. A call that throws leaves the
  state as it was, so that afterwards every operation whose source state is another one
  throws InvalidStateError, as it did before, and the operation of that state is judged
  on its arguments again.
\<close>

theorem error_keeps_state:
  assumes "fst (exec_call L this cl) = Inl err"
  shows "state (snd (exec_call L this cl)) = state this \<and>
         (\<forall>cl'. source_state cl' \<noteq> state this \<longrightarrow>
            (\<exists>m. fst (exec_call L (snd (exec_call L this cl)) cl') = Inl (InvalidStateError m)))"
proof -
  have s: "state (snd (exec_call L this cl)) = state this"
    using assms by (rule exec_call_error_state)
  have "\<exists>m. fst (exec_call L (snd (exec_call L this cl)) cl') = Inl (InvalidStateError m)"
    if "source_state cl' \<noteq> state this" for cl'
    using exec_call_wrong_state[of "snd (exec_call L this cl)" cl' L] that s by auto
  with s show ?thesis by blast
qed

text \<open>
  C4 as stated fails: \<open>round2\<close> throws on a fresh session and \<open>round1\<close> then returns its
  result; \<open>round2\<close> throws for a peer with the session's own identifier and then returns
  its result for the right one.
\<close>

theorem errors_not_fatal:
  "fst (exec_call toy alice0 (Round2 bobR1 (Some (key 3)) (js ''Bob'') (key 1))) =
     Inl (InvalidStateError ''Round 2 can only be executed after Round 1'') \<and>
   fst (exec_call toy
          (snd (exec_call toy alice0 (Round2 bobR1 (Some (key 3)) (js ''Bob'') (key 1))))
          (Round1 (key 1) (key 2) (key 2) (key 1))) = Inr (Round1Out aliceR1) \<and>
   fst (exec_call toy alice1 (Round2 bobR1 (Some (key 3)) (js ''Alice'') (key 1))) =
     Inl (VerificationError ''Proof verification failed, userIds are equal.'') \<and>
   fst (exec_call toy
          (snd (exec_call toy alice1 (Round2 bobR1 (Some (key 3)) (js ''Alice'') (key 1))))
          (Round2 bobR1 (Some (key 3)) (js ''Bob'') (key 1))) = Inr (Round2Out aliceR2)"
proof -
  have i: "state alice0 = INITIAL" by (simp add: alice0_def new_JPake_def)
  have r: "round2 toy (alice1\<lparr>bobUserId := Some (js ''Alice'')\<rparr>) bobR1 (Some (key 3)) (js ''Bob'') (key 1)
            = (Inr aliceR2, alice2)"
    by code_simp
  show ?thesis
    using i r by (simp add: round2_wrong_state toy_alice_round1 toy_round2_equal_ids)
qed

theorem error_keeps_state_witness:
  "fst (exec_call toy alice1 (Round2 bobR1 (Some (key 3)) (js ''Alice'') (key 1))) =
     Inl (VerificationError ''Proof verification failed, userIds are equal.'') \<and>
   state (snd (exec_call toy alice1 (Round2 bobR1 (Some (key 3)) (js ''Alice'') (key 1)))) =
     state alice1 \<and>
   source_state DeriveSharedKey \<noteq> state alice1 \<and>
   (\<exists>m. fst (exec_call toy
               (snd (exec_call toy alice1 (Round2 bobR1 (Some (key 3)) (js ''Alice'') (key 1))))
               DeriveSharedKey) = Inl (InvalidStateError m))"
proof -
  have f: "fst (exec_call toy alice1 (Round2 bobR1 (Some (key 3)) (js ''Alice'') (key 1))) =
     Inl (VerificationError ''Proof verification failed, userIds are equal.'')"
    by (simp add: toy_round2_equal_ids)
  have s: "source_state DeriveSharedKey \<noteq> state alice1" by (simp add: alice1_def)
  show ?thesis
    using f s error_keeps_state[OF f] by blast
qed

section \<open>Password to scalar\<close>

lemma retry_loop_nonzero: "s \<noteq> 0 \<Longrightarrow> retry_loop L password s = Some s"
  by (subst retry_loop.simps) simp

lemma retry_loop_zero: "retry_loop L password 0 = retry_loop L password (retry_hash L password)"
  by (subst retry_loop.simps) (simp add: retry_hash_def)

lemma retry_loop_diverges:
  assumes "retry_hash L password = 0"
  shows "retry_loop L password 0 = None"
proof (rule ccontr)
  assume "retry_loop L password 0 \<noteq> None"
  then obtain y where y: "retry_loop L password 0 = Some y" by auto
  have "L = L \<and> password = password \<longrightarrow> (0::int) \<noteq> 0"
  proof (rule retry_loop.raw_induct
             [where P = "\<lambda>L' p' s y'. L' = L \<and> p' = password \<longrightarrow> s \<noteq> 0", OF _ y])
    fix f :: "'a curve \<Rightarrow> jsstring \<Rightarrow> int \<Rightarrow> int option" and L' p' s y'
    assume IH: "\<And>L'' p s y. f L'' p s = Some y \<Longrightarrow> L'' = L \<and> p = password \<longrightarrow> s \<noteq> 0"
      and eq: "(if s = 0
                then f L' p'
                  (mod_noble (bytesToNumberBE (sha3_256 L' (TextEncoder_encode (p' @ (js ''retried'')))))
                     (CURVE_n L'))
                else Some s) = Some y'"
    show "L' = L \<and> p' = password \<longrightarrow> s \<noteq> 0"
    proof (intro impI notI)
      assume "L' = L \<and> p' = password" and "s = 0"
      with eq assms have "f L password 0 = Some y'" by (simp add: retry_hash_def)
      from IH[OF this] show False by simp
    qed
  qed
  then show False by simp
qed

lemma deriveSFromPassword_cases:
  "deriveSFromPassword L password =
     (if password = [] then Some (Inl (InvalidArgumentError ''Missing password''))
      else if first_hash L password \<noteq> 0 then Some (Inr (numberToBytesBE (first_hash L password) 32))
      else if retry_hash L password \<noteq> 0 then Some (Inr (numberToBytesBE (retry_hash L password) 32))
      else None)"
proof -
  have d: "deriveSFromPassword L password =
     (if password = [] then Some (Inl (InvalidArgumentError ''Missing password''))
      else case retry_loop L password (first_hash L password) of
          None \<Rightarrow> None
        | Some s \<Rightarrow> Some (Inr (numberToBytesBE s 32)))"
    by (simp add: deriveSFromPassword_def first_hash_def)
  show ?thesis
  proof (cases "first_hash L password = 0")
    case False
    then show ?thesis by (simp add: d retry_loop_nonzero)
  next
    case True
    show ?thesis
    proof (cases "retry_hash L password = 0")
      case False
      then show ?thesis using True by (simp add: d retry_loop_zero retry_loop_nonzero)
    next
      case z: True
      then show ?thesis using True by (simp add: d retry_loop_diverges)
    qed
  qed
qed

lemma scalar_bytes:
  assumes "curve_ok L" and "s = mod_noble a (CURVE_n L)" and "s \<noteq> 0"
  shows "length (numberToBytesBE s 32) = 32 \<and> 1 \<le> bytesToNumberBE (numberToBytesBE s 32) \<and>
         bytesToNumberBE (numberToBytesBE s 32) < CURVE_n L"
proof -
  from assms(1) have n: "0 < CURVE_n L" "CURVE_n L < 2 ^ 256" by (auto simp: curve_ok_def)
  have s: "s = a mod CURVE_n L" using assms(2) n by (simp add: mod_noble_eq)
  then have r: "0 \<le> s" "s < CURVE_n L" using n by simp_all
  then have "s < 256 ^ 32" using n by simp
  with r show ?thesis using assms(3)
    by (simp add: length_numberToBytesBE bytesToNumberBE_numberToBytesBE)
qed

text \<open>
  What holds of \<open>deriveSFromPassword\<close> for every hash: it throws InvalidArgumentError
  "Missing password" for the empty password. For a password that is not empty it is a function of the password;
  when the hash of the password, or the hash of the password followed by \<^verbatim>\<open>retried\<close>, is
  not 0 modulo \<open>n\<close>, it returns 32 bytes whose big-endian value lies in \<open>[1, n)\<close>.
\<close>

lemma deriveSFromPassword_returns:
  assumes "curve_ok L"
  shows "deriveSFromPassword L [] = Some (Inl (InvalidArgumentError ''Missing password'')) \<and>
         (password \<noteq> [] \<and>
          (bytesToNumberBE (sha3_256 L (TextEncoder_encode password)) mod CURVE_n L \<noteq> 0 \<or>
           bytesToNumberBE (sha3_256 L (TextEncoder_encode (password @ (js ''retried''))))
             mod CURVE_n L \<noteq> 0) \<longrightarrow>
          (\<exists>bs. deriveSFromPassword L password = Some (Inr bs) \<and> length bs = 32 \<and>
                1 \<le> bytesToNumberBE bs \<and> bytesToNumberBE bs < CURVE_n L))"
proof (intro conjI impI)
  show "deriveSFromPassword L [] = Some (Inl (InvalidArgumentError ''Missing password''))"
    by (simp add: deriveSFromPassword_def)
next
  assume a: "password \<noteq> [] \<and>
          (bytesToNumberBE (sha3_256 L (TextEncoder_encode password)) mod CURVE_n L \<noteq> 0 \<or>
           bytesToNumberBE (sha3_256 L (TextEncoder_encode (password @ (js ''retried''))))
             mod CURVE_n L \<noteq> 0)"
  from assms have n: "0 < CURVE_n L" by (auto simp: curve_ok_def)
  have h: "first_hash L password =
             bytesToNumberBE (sha3_256 L (TextEncoder_encode password)) mod CURVE_n L"
    "retry_hash L password =
       bytesToNumberBE (sha3_256 L (TextEncoder_encode (password @ (js ''retried'')))) mod CURVE_n L"
    using n by (simp_all add: first_hash_def retry_hash_def mod_noble_eq)
  from a h have "first_hash L password \<noteq> 0 \<or> retry_hash L password \<noteq> 0" by simp
  then show "\<exists>bs. deriveSFromPassword L password = Some (Inr bs) \<and> length bs = 32 \<and>
                1 \<le> bytesToNumberBE bs \<and> bytesToNumberBE bs < CURVE_n L"
    using a scalar_bytes[OF assms first_hash_def, of password]
      scalar_bytes[OF assms retry_hash_def, of password]
    by (auto simp: deriveSFromPassword_cases)
qed

lemma toy_hashes_F: "first_hash toy (js ''F'') = 0" "retry_hash toy (js ''F'') = 0"
  by code_simp+

text \<open>
  That the call returns for every password is a property of the hash and does not follow
  from the contract: for a library whose hash sends a password and the password followed
  by \<^verbatim>\<open>retried\<close> to multiples of \<open>n\<close>, the loop hashes the same string again and again and
  the call never returns. No such password is known for SHA3-256 and the order of
  secp256k1.
\<close>

lemma deriveSFromPassword_diverges:
  "curve_ok toy \<and> (js ''F'') \<noteq> [] \<and> deriveSFromPassword toy (js ''F'') = None"
  using toy_ok by (simp add: deriveSFromPassword_cases toy_hashes_F)

lemma deriveSFromPassword_returns_witness:
  "curve_ok toy \<and> (js ''a'') \<noteq> [] \<and>
   bytesToNumberBE (sha3_256 toy (TextEncoder_encode (js ''a''))) mod CURVE_n toy \<noteq> 0 \<and>
   deriveSFromPassword toy [] = Some (Inl (InvalidArgumentError ''Missing password'')) \<and>
   (\<exists>bs. deriveSFromPassword toy (js ''a'') = Some (Inr bs) \<and> length bs = 32 \<and>
         1 \<le> bytesToNumberBE bs \<and> bytesToNumberBE bs < CURVE_n toy)"
proof -
  have h: "bytesToNumberBE (sha3_256 toy (TextEncoder_encode (js ''a''))) mod CURVE_n toy \<noteq> 0"
    by code_simp
  show ?thesis
    using toy_ok h deriveSFromPassword_returns[OF toy_ok, of "(js ''a'')"] by simp
qed

section \<open>Consequences of the contract\<close>

lemma curve_ok_unfold:
  assumes "curve_ok L"
  shows "1 < CURVE_n L \<and> CURVE_n L < 2 ^ 256 \<and>
     (\<forall>a b. CURVE_n L dvd a * b \<longrightarrow> CURVE_n L dvd a \<or> CURVE_n L dvd b) \<and>
     (\<forall>P Q R. add L (add L P Q) R = add L P (add L Q R)) \<and>
     (\<forall>P Q. add L P Q = add L Q P) \<and>
     (\<forall>P. add L (ZERO L) P = P) \<and>
     (\<forall>P Q. add L (subtract L P Q) Q = P) \<and>
     (\<forall>P k. 1 \<le> k \<and> k < CURVE_n L \<longrightarrow> multiply L P k \<noteq> None) \<and>
     (\<forall>P k Q. multiply L P k = Some Q \<longrightarrow> Q = smul L P (nat (k mod CURVE_n L))) \<and>
     (\<forall>P. smul L P (nat (CURVE_n L)) = ZERO L) \<and>
     (\<forall>P k. smul L P k = ZERO L \<longrightarrow> P = ZERO L \<or> CURVE_n L dvd int k) \<and>
     BASE L \<noteq> ZERO L \<and>
     (\<forall>P Q. equals L P Q \<longleftrightarrow> P = Q) \<and>
     (\<forall>P Q. toAffine L P = toAffine L Q \<longrightarrow> P = Q) \<and>
     (\<forall>P. P \<noteq> ZERO L \<longrightarrow>
        (\<exists>bs. toRawBytes L P = Some bs \<and> length bs = 33 \<and> fromHex L bs = Some P)) \<and>
     (\<forall>bs P. fromHex L bs = Some P \<longrightarrow> P \<noteq> ZERO L) \<and>
     (\<forall>bs. length (sha3_256 L bs) = 32)"
  using assms unfolding curve_ok_def .

lemmas ok_n_gt = curve_ok_unfold[THEN conjunct1]
lemmas ok_n_lt = curve_ok_unfold[THEN conjunct2, THEN conjunct1]
lemmas ok_prime = curve_ok_unfold[THEN conjunct2, THEN conjunct2, THEN conjunct1, rule_format]
lemmas ok_add_assoc = curve_ok_unfold[THEN conjunct2, THEN conjunct2, THEN conjunct2, THEN conjunct1, rule_format]
lemmas ok_add_commute = curve_ok_unfold[THEN conjunct2, THEN conjunct2, THEN conjunct2, THEN conjunct2, THEN conjunct1, rule_format]
lemmas ok_add_ZERO = curve_ok_unfold[THEN conjunct2, THEN conjunct2, THEN conjunct2, THEN conjunct2, THEN conjunct2, THEN conjunct1, rule_format]
lemmas ok_subtract = curve_ok_unfold[THEN conjunct2, THEN conjunct2, THEN conjunct2, THEN conjunct2, THEN conjunct2, THEN conjunct2, THEN conjunct1, rule_format]
lemmas ok_multiply_defined = curve_ok_unfold[THEN conjunct2, THEN conjunct2, THEN conjunct2, THEN conjunct2, THEN conjunct2, THEN conjunct2, THEN conjunct2, THEN conjunct1, rule_format]
lemmas ok_multiply_value = curve_ok_unfold[THEN conjunct2, THEN conjunct2, THEN conjunct2, THEN conjunct2, THEN conjunct2, THEN conjunct2, THEN conjunct2, THEN conjunct2, THEN conjunct1, rule_format]
lemmas ok_order = curve_ok_unfold[THEN conjunct2, THEN conjunct2, THEN conjunct2, THEN conjunct2, THEN conjunct2, THEN conjunct2, THEN conjunct2, THEN conjunct2, THEN conjunct2, THEN conjunct1, rule_format]
lemmas ok_torsion = curve_ok_unfold[THEN conjunct2, THEN conjunct2, THEN conjunct2, THEN conjunct2, THEN conjunct2, THEN conjunct2, THEN conjunct2, THEN conjunct2, THEN conjunct2, THEN conjunct2, THEN conjunct1, rule_format]
lemmas ok_BASE = curve_ok_unfold[THEN conjunct2, THEN conjunct2, THEN conjunct2, THEN conjunct2, THEN conjunct2, THEN conjunct2, THEN conjunct2, THEN conjunct2, THEN conjunct2, THEN conjunct2, THEN conjunct2, THEN conjunct1]
lemmas ok_equals = curve_ok_unfold[THEN conjunct2, THEN conjunct2, THEN conjunct2, THEN conjunct2, THEN conjunct2, THEN conjunct2, THEN conjunct2, THEN conjunct2, THEN conjunct2, THEN conjunct2, THEN conjunct2, THEN conjunct2, THEN conjunct1, rule_format]
lemmas ok_toAffine_inj = curve_ok_unfold[THEN conjunct2, THEN conjunct2, THEN conjunct2, THEN conjunct2, THEN conjunct2, THEN conjunct2, THEN conjunct2, THEN conjunct2, THEN conjunct2, THEN conjunct2, THEN conjunct2, THEN conjunct2, THEN conjunct2, THEN conjunct1, rule_format]
lemmas ok_encode = curve_ok_unfold[THEN conjunct2, THEN conjunct2, THEN conjunct2, THEN conjunct2, THEN conjunct2, THEN conjunct2, THEN conjunct2, THEN conjunct2, THEN conjunct2, THEN conjunct2, THEN conjunct2, THEN conjunct2, THEN conjunct2, THEN conjunct2, THEN conjunct1, rule_format]
lemmas ok_fromHex = curve_ok_unfold[THEN conjunct2, THEN conjunct2, THEN conjunct2, THEN conjunct2, THEN conjunct2, THEN conjunct2, THEN conjunct2, THEN conjunct2, THEN conjunct2, THEN conjunct2, THEN conjunct2, THEN conjunct2, THEN conjunct2, THEN conjunct2, THEN conjunct2, THEN conjunct1, rule_format]
lemmas ok_hash = curve_ok_unfold[THEN conjunct2, THEN conjunct2, THEN conjunct2, THEN conjunct2, THEN conjunct2, THEN conjunct2, THEN conjunct2, THEN conjunct2, THEN conjunct2, THEN conjunct2, THEN conjunct2, THEN conjunct2, THEN conjunct2, THEN conjunct2, THEN conjunct2, THEN conjunct2, rule_format]
lemmas ok_n = ok_n_gt ok_n_lt

lemma ok_add_ZERO_right: "curve_ok L \<Longrightarrow> add L P (ZERO L) = P"
  using ok_add_commute[of L P "ZERO L"] by (simp add: ok_add_ZERO)

lemma ok_multiply_Some:
  "curve_ok L \<Longrightarrow> multiply L P k = Some Q \<Longrightarrow> Q = zmul L P k"
  by (simp add: ok_multiply_value zmul_def)

lemma ok_multiply:
  assumes "curve_ok L" "1 \<le> k" "k < CURVE_n L"
  shows "multiply L P k = Some (zmul L P k)"
proof -
  from assms have "multiply L P k \<noteq> None" by (simp add: ok_multiply_defined)
  then obtain Q where "multiply L P k = Some Q" by auto
  with assms(1) show ?thesis by (simp add: ok_multiply_Some)
qed

lemma ok_toAffine: "curve_ok L \<Longrightarrow> toAffine L P = toAffine L Q \<longleftrightarrow> P = Q"
  using ok_toAffine_inj[of L P Q] by auto

lemma smul_add:
  assumes "curve_ok L"
  shows "smul L P (a + b) = add L (smul L P a) (smul L P b)"
  by (induction a) (simp_all add: ok_add_ZERO[OF assms] ok_add_assoc[OF assms])

lemma smul_ZERO:
  assumes "curve_ok L"
  shows "smul L (ZERO L) k = ZERO L"
  by (induction k) (simp_all add: ok_add_ZERO[OF assms])

lemma smul_smul:
  assumes "curve_ok L"
  shows "smul L (smul L P a) b = smul L P (a * b)"
  by (induction b) (simp_all add: smul_add[OF assms])

lemma smul_add_point:
  assumes "curve_ok L"
  shows "smul L (add L P Q) k = add L (smul L P k) (smul L Q k)"
proof (induction k)
  case 0
  show ?case by (simp add: ok_add_ZERO[OF assms])
next
  case (Suc k)
  have "add L (add L P Q) (add L (smul L P k) (smul L Q k)) =
        add L (add L P (smul L P k)) (add L Q (smul L Q k))"
    by (metis ok_add_assoc[OF assms] ok_add_commute[OF assms])
  with Suc show ?case by simp
qed

lemma smul_mod:
  assumes "curve_ok L"
  shows "smul L P (k mod nat (CURVE_n L)) = smul L P k"
proof -
  define m where "m = nat (CURVE_n L)"
  have "smul L P k = smul L P (m * (k div m) + k mod m)" by simp
  also have "\<dots> = add L (smul L (smul L P m) (k div m)) (smul L P (k mod m))"
    by (simp only: smul_add[OF assms] smul_smul[OF assms])
  also have "\<dots> = smul L P (k mod m)"
    by (simp add: m_def ok_order[OF assms] smul_ZERO[OF assms] ok_add_ZERO[OF assms])
  finally show ?thesis by (simp add: m_def)
qed

lemma zmul_nat:
  assumes "curve_ok L"
  shows "zmul L P (int k) = smul L P k"
proof -
  have "nat (int k mod CURVE_n L) = k mod nat (CURVE_n L)"
    using ok_n(1)[OF assms] by (simp add: nat_mod_distrib)
  then show ?thesis by (simp add: zmul_def smul_mod[OF assms])
qed

lemma zmul_smul:
  assumes "curve_ok L" "0 \<le> k"
  shows "zmul L P k = smul L P (nat k)"
  using zmul_nat[OF assms(1), of P "nat k"] assms(2) by simp

lemma zmul_cong: "a mod CURVE_n L = b mod CURVE_n L \<Longrightarrow> zmul L P a = zmul L P b"
  by (simp add: zmul_def)

lemma zmul_mod: "zmul L P (a mod CURVE_n L) = zmul L P a"
  by (simp add: zmul_def)

lemma zmul_add:
  assumes "curve_ok L"
  shows "add L (zmul L P a) (zmul L P b) = zmul L P (a + b)"
proof -
  define n where "n = CURVE_n L"
  have n: "0 < n" using ok_n(1)[OF assms] by (simp add: n_def)
  have "add L (zmul L P a) (zmul L P b) = smul L P (nat (a mod n) + nat (b mod n))"
    by (simp add: zmul_def n_def smul_add[OF assms])
  also have "\<dots> = zmul L P (int (nat (a mod n) + nat (b mod n)))"
    by (simp only: zmul_nat[OF assms])
  also have "int (nat (a mod n) + nat (b mod n)) = a mod n + b mod n" using n by simp
  also have "zmul L P (a mod n + b mod n) = zmul L P (a + b)"
    by (rule zmul_cong) (simp add: n_def mod_add_eq)
  finally show ?thesis .
qed

lemma zmul_zmul:
  assumes "curve_ok L"
  shows "zmul L (zmul L P a) b = zmul L P (a * b)"
proof -
  define n where "n = CURVE_n L"
  have n: "0 < n" using ok_n(1)[OF assms] by (simp add: n_def)
  have "zmul L (zmul L P a) b = smul L P (nat (a mod n) * nat (b mod n))"
    by (simp add: zmul_def n_def smul_smul[OF assms])
  also have "\<dots> = zmul L P (int (nat (a mod n) * nat (b mod n)))"
    by (simp only: zmul_nat[OF assms])
  also have "int (nat (a mod n) * nat (b mod n)) = (a mod n) * (b mod n)" using n by simp
  also have "zmul L P ((a mod n) * (b mod n)) = zmul L P (a * b)"
    by (rule zmul_cong) (simp add: n_def mod_mult_eq)
  finally show ?thesis .
qed

lemma zmul_add_point:
  "curve_ok L \<Longrightarrow> zmul L (add L P Q) k = add L (zmul L P k) (zmul L Q k)"
  by (simp add: zmul_def smul_add_point)

lemma zmul_ZERO: "curve_ok L \<Longrightarrow> zmul L (ZERO L) k = ZERO L"
  by (simp add: zmul_def smul_ZERO)

lemma zmul_one:
  assumes "curve_ok L"
  shows "zmul L P 1 = P"
  using ok_n(1)[OF assms] by (simp add: zmul_def ok_add_ZERO_right[OF assms])

lemma zmul_eq_ZERO_iff:
  assumes "curve_ok L" "P \<noteq> ZERO L"
  shows "zmul L P k = ZERO L \<longleftrightarrow> CURVE_n L dvd k"
proof
  assume "zmul L P k = ZERO L"
  then have "CURVE_n L dvd int (nat (k mod CURVE_n L))"
    using ok_torsion[OF assms(1), of P "nat (k mod CURVE_n L)"] assms(2) by (simp add: zmul_def)
  then have "CURVE_n L dvd k mod CURVE_n L" using ok_n(1)[OF assms(1)] by simp
  then show "CURVE_n L dvd k" by (simp add: dvd_eq_mod_eq_0)
next
  assume "CURVE_n L dvd k"
  then have "k mod CURVE_n L = 0" by (simp add: dvd_eq_mod_eq_0)
  then show "zmul L P k = ZERO L" by (simp add: zmul_def)
qed

lemma add_cancel_right:
  assumes "curve_ok L" "add L P R = add L Q R"
  shows "P = Q"
proof -
  define N where "N = subtract L (ZERO L) R"
  have N: "add L R N = ZERO L"
    using ok_subtract[OF assms(1), of "ZERO L" R] ok_add_commute[OF assms(1), of R N]
    by (simp add: N_def)
  have "P = add L (add L P R) N"
    by (simp add: ok_add_assoc[OF assms(1)] N ok_add_ZERO_right[OF assms(1)])
  also have "\<dots> = add L (add L Q R) N" by (simp add: assms(2))
  also have "\<dots> = Q"
    by (simp add: ok_add_assoc[OF assms(1)] N ok_add_ZERO_right[OF assms(1)])
  finally show ?thesis .
qed

lemma subtract_eq:
  assumes "curve_ok L" "add L X Q = P"
  shows "subtract L P Q = X"
  using add_cancel_right[OF assms(1), of "subtract L P Q" Q X] ok_subtract[OF assms(1), of P Q]
    assms(2) by simp

lemma zmul_subtract:
  assumes "curve_ok L"
  shows "subtract L (zmul L P a) (zmul L P b) = zmul L P (a - b)"
  by (rule subtract_eq[OF assms]) (simp add: zmul_add[OF assms])

section \<open>Schnorr proofs\<close>

lemma encodeInfos_ok:
  "\<forall>i \<in> set infos. length (TextEncoder_encode i) \<le> 255 \<Longrightarrow> \<exists>bs. encodeInfos infos = Inr bs"
  by (induction infos) (auto simp: encodeInfo_def Let_def)

text \<open>The challenge as a value, when both points have an encoding.\<close>

lemma challenge_value:
  assumes "toRawBytes L gx = Some gxb" "length gxb = 33"
    and "toRawBytes L gr = Some grb" "length grb = 33"
    and "length (TextEncoder_encode uid) \<le> 255"
    and "\<forall>i \<in> set (defaultInfo oi). length (TextEncoder_encode i) \<le> 255"
    and "0 < CURVE_n L"
  shows "\<exists>c. generateSchnorrChallenge L uid gx gr oi = Inr c \<and> 0 \<le> c \<and> c < CURVE_n L"
proof -
  from encodeInfos_ok[OF assms(6)] obtain bs where "encodeInfos (defaultInfo oi) = Inr bs" ..
  then show ?thesis
    using assms(1-5,7) by (simp add: generateSchnorrChallenge_def Let_def mod_noble_eq)
qed

lemma challenge_userId_too_long:
  assumes "toRawBytes L gx = Some gxb" "toRawBytes L gr = Some grb"
    and "length (TextEncoder_encode uid) > 255"
  shows "generateSchnorrChallenge L uid gx gr oi =
           Inl (InvalidArgumentError
             ''userId is too long. It must be 255 bytes or less when UTF-8 encoded.'')"
  using assms by (simp add: generateSchnorrChallenge_def Let_def)

text \<open>The parts of a proof of 67 bytes with the two length bytes in place.\<close>

lemma proof_parts:
  assumes "length Vb = 33" "length rb = 32"
  shows "length ([33] @ Vb @ [32] @ rb) = 67"
    and "unat (([33] @ Vb @ [32] @ rb) ! 0) = 33"
    and "at ([33] @ Vb @ [32] @ rb) 34 = Some 32"
    and "sliceBytes ([33] @ Vb @ [32] @ rb) 1 34 = Vb"
    and "sliceBytes ([33] @ Vb @ [32] @ rb) 35 67 = rb"
  using assms by (simp_all add: at_def sliceBytes_def nth_append)

text \<open>\<open>verifySchnorrProof\<close> after its two format checks.\<close>

lemma verify_wellformed:
  assumes "length prf = 67" "unat (prf ! 0) = 33" "unat (prf ! 34) = 32"
  shows "verifySchnorrProof L uid gx prf g oi =
     (case fromHex L (sliceBytes prf 1 34) of
        None \<Rightarrow> Inr False
      | Some V \<Rightarrow>
          bind (generateSchnorrChallenge L uid gx V oi) (\<lambda>c.
          bind (lib (multiply L g (bytesToNumberBE (sliceBytes prf 35 67)))) (\<lambda>gr.
          bind (lib (multiply L gx c)) (\<lambda>gxc.
          Inr (toAffine L V = toAffine L (add L gr gxc))))))"
  using assms
  by (simp add: verifySchnorrProof_def Let_def at_def prod_eq_iff cong: option.case_cong)

lemma verify_in_range:
  assumes ok: "curve_ok L"
    and wf: "length prf = 67" "unat (prf ! 0) = 33" "unat (prf ! 34) = 32"
    and V: "fromHex L (sliceBytes prf 1 34) = Some V"
    and c: "generateSchnorrChallenge L uid gx V oi = Inr c" "1 \<le> c" "c < CURVE_n L"
    and r: "r = bytesToNumberBE (sliceBytes prf 35 67)" "1 \<le> r" "r < CURVE_n L"
  shows "verifySchnorrProof L uid gx prf g oi = Inr (V = add L (zmul L g r) (zmul L gx c))"
  using V c(1) r(1)
  by (simp add: verify_wellformed[OF wf] ok_multiply[OF ok c(2,3)] ok_multiply[OF ok r(2,3)[unfolded r(1)]]
        ok_toAffine[OF ok])

lemma schnorr_equation:
  assumes ok: "curve_ok L"
  shows "add L (zmul L g ((v - x * c) mod CURVE_n L)) (zmul L (zmul L g x) c) = zmul L g v"
proof -
  have "add L (zmul L g ((v - x * c) mod CURVE_n L)) (zmul L (zmul L g x) c) =
        zmul L g ((v - x * c) mod CURVE_n L + x * c)"
    by (simp add: zmul_zmul[OF ok] zmul_add[OF ok])
  also have "\<dots> = zmul L g v"
    by (rule zmul_cong) (simp add: mod_add_left_eq)
  finally show ?thesis .
qed

lemma zmul_nonzero:
  assumes ok: "curve_ok L" and "g \<noteq> ZERO L" "1 \<le> k" "k < CURVE_n L"
  shows "zmul L g k \<noteq> ZERO L"
proof -
  have "\<not> CURVE_n L dvd k" using assms(3,4) by (simp add: zdvd_not_zless)
  then show ?thesis using zmul_eq_ZERO_iff[OF ok assms(2)] by simp
qed

text \<open>
  \<open>generateSchnorrProof\<close> for a scalar and a nonce in range: the proof it assembles, and
  what its call of \<open>verifySchnorrProof\<close> returns.
\<close>

lemma generate_run:
  assumes ok: "curve_ok L"
    and x: "1 \<le> bytesToNumberBE x" "bytesToNumberBE x < CURVE_n L"
    and g: "g \<noteq> ZERO L"
    and uid: "length (TextEncoder_encode uid) \<le> 255"
    and oi: "\<forall>i \<in> set (defaultInfo oi). length (TextEncoder_encode i) \<le> 255"
    and v: "1 \<le> bytesToNumberBE vb" "bytesToNumberBE vb < CURVE_n L"
  defines "gx \<equiv> zmul L g (bytesToNumberBE x)"
    and "V \<equiv> zmul L g (bytesToNumberBE vb)"
  obtains c Vbytes r pr where
    "generateSchnorrChallenge L uid gx V oi = Inr c" and "0 \<le> c" and "c < CURVE_n L"
    and "toRawBytes L V = Some Vbytes" and "length Vbytes = 33" and "fromHex L Vbytes = Some V"
    and "r = (bytesToNumberBE vb - bytesToNumberBE x * c) mod CURVE_n L"
    and "pr = [33] @ Vbytes @ [32] @ numberToBytesBE r 32" and "length pr = 67"
    and "verifySchnorrProof L uid gx pr g oi = Inr True \<and>
           generateSchnorrProof L uid x gx g oi vb = Inr pr \<or>
         verifySchnorrProof L uid gx pr g oi = Inl LibraryError \<and>
           generateSchnorrProof L uid x gx g oi vb = Inl LibraryError"
    and "c \<noteq> 0 \<and> r \<noteq> 0 \<longrightarrow> verifySchnorrProof L uid gx pr g oi = Inr True"
proof -
  define n where "n = CURVE_n L"
  have n: "1 < n" "n < 2 ^ 256" using ok_n[OF ok] by (simp_all add: n_def)
  have gx0: "gx \<noteq> ZERO L" unfolding gx_def by (rule zmul_nonzero[OF ok g x])
  have V0: "V \<noteq> ZERO L" unfolding V_def by (rule zmul_nonzero[OF ok g v])
  from ok_encode[OF ok gx0] obtain gxb where
    gxb: "toRawBytes L gx = Some gxb" "length gxb = 33" by blast
  from ok_encode[OF ok V0] obtain Vb where
    Vb: "toRawBytes L V = Some Vb" "length Vb = 33" "fromHex L Vb = Some V" by blast
  from challenge_value[OF gxb Vb(1,2) uid oi] n obtain c where
    c: "generateSchnorrChallenge L uid gx V oi = Inr c" "0 \<le> c" "c < n"
    by (auto simp: n_def)
  define r where "r = (bytesToNumberBE vb - bytesToNumberBE x * c) mod n"
  define rb where "rb = numberToBytesBE r 32"
  define pr where "pr = [33] @ Vb @ [32] @ rb"
  have r: "0 \<le> r" "r < n" using n by (simp_all add: r_def)
  then have "r < 256 ^ 32" using n by simp
  then have rb: "length rb = 32" "bytesToNumberBE rb = r"
    using r by (simp_all add: rb_def length_numberToBytesBE bytesToNumberBE_numberToBytesBE)
  note parts = proof_parts[OF Vb(2) rb(1)]
  have wf: "length pr = 67" "unat (pr ! 0) = 33" "unat (pr ! 34) = 32"
    using parts(1,2,3) by (simp_all add: pr_def at_def split: if_splits)
  have sl: "sliceBytes pr 1 34 = Vb" "sliceBytes pr 35 67 = rb"
    using parts(4,5) by (simp_all add: pr_def)
  have mV: "multiply L g (bytesToNumberBE vb) = Some V"
    unfolding V_def by (rule ok_multiply[OF ok v])
  have eqn: "add L (zmul L g r) (zmul L gx c) = V"
    unfolding r_def n_def gx_def V_def by (rule schnorr_equation[OF ok])
  have ver: "verifySchnorrProof L uid gx pr g oi =
          bind (lib (multiply L g r)) (\<lambda>gr.
          bind (lib (multiply L gx c)) (\<lambda>gxc.
          Inr (toAffine L V = toAffine L (add L gr gxc))))"
    by (simp only: verify_wellformed[OF wf] sl Vb(3) option.case c(1) rb(2) bind_Inr)
  have gen: "generateSchnorrProof L uid x gx g oi vb =
          bind (verifySchnorrProof L uid gx pr g oi) (\<lambda>isValidProof.
            if \<not> isValidProof then Inl (JPakeError ''Generated Schnorr proof is invalid'')
            else Inr pr)"
    unfolding pr_def using mV c(1) Vb(1,2) rb(1) n
    by (simp add: generateSchnorrProof_def Let_def mod_noble_eq n_def[symmetric] r_def[symmetric]
          rb_def[symmetric] cong: if_cong)
  have alt: "verifySchnorrProof L uid gx pr g oi = Inr True \<or>
             verifySchnorrProof L uid gx pr g oi = Inl LibraryError"
  proof (cases "multiply L g r")
    case None
    then show ?thesis by (simp add: ver)
  next
    case (Some gr)
    then have gr: "gr = zmul L g r" by (simp add: ok_multiply_Some[OF ok])
    show ?thesis
    proof (cases "multiply L gx c")
      case None
      then show ?thesis using Some by (simp add: ver)
    next
      case (Some gxc)
      then have "gxc = zmul L gx c" by (simp add: ok_multiply_Some[OF ok])
      then show ?thesis using \<open>multiply L g r = Some gr\<close> Some gr eqn by (simp add: ver)
    qed
  qed
  have inr: "verifySchnorrProof L uid gx pr g oi = Inr True" if "c \<noteq> 0" "r \<noteq> 0"
  proof -
    have "1 \<le> c" "1 \<le> r" using that c(2) r(1) by simp_all
    then show ?thesis
      using ok_multiply[OF ok _ c(3)[unfolded n_def], of gx] ok_multiply[OF ok _ r(2)[unfolded n_def], of g]
        eqn by (simp add: ver)
  qed
  have fin: "verifySchnorrProof L uid gx pr g oi = Inr True \<and>
           generateSchnorrProof L uid x gx g oi vb = Inr pr \<or>
         verifySchnorrProof L uid gx pr g oi = Inl LibraryError \<and>
           generateSchnorrProof L uid x gx g oi vb = Inl LibraryError"
    using alt by (auto simp: gen)
  have inr': "c \<noteq> 0 \<and> r \<noteq> 0 \<longrightarrow> verifySchnorrProof L uid gx pr g oi = Inr True"
    using inr by simp
  show thesis
    by (rule that[OF c(1,2) c(3)[unfolded n_def] Vb r_def[unfolded n_def]
          pr_def[unfolded rb_def] wf(1) fin inr'])
qed

text \<open>
  Completeness of proof generation, for every hash. For a scalar \<open>x\<close> in \<open>[1, n)\<close>, a
  generator \<open>g\<close> other than the point at infinity, \<open>gx\<close> the \<open>x\<close>-fold sum of \<open>g\<close>, a \<open>userId\<close> and \<open>otherInfo\<close> elements of at most
  255 bytes, and a drawn scalar \<open>v\<close> in \<open>[1, n)\<close>: the challenge \<open>c\<close> is computed, \<open>V\<close> has
  an encoding, the proof \<open>[33][V][32][r]\<close> with \<open>r = (v - x c) mod n\<close> has 67 bytes, and the
  branch "Generated Schnorr proof is invalid" is never taken. When \<open>c\<close> and \<open>r\<close> are not 0,
  \<open>generateSchnorrProof\<close> returns that proof and \<open>verifySchnorrProof\<close> returns true for it.
\<close>

lemma generateSchnorrProof_complete:
  assumes "curve_ok L"
    and "1 \<le> bytesToNumberBE x" and "bytesToNumberBE x < CURVE_n L"
    and "g \<noteq> ZERO L"
    and "length (TextEncoder_encode uid) \<le> 255"
    and "\<forall>i \<in> set (defaultInfo oi). length (TextEncoder_encode i) \<le> 255"
    and "1 \<le> bytesToNumberBE vb" and "bytesToNumberBE vb < CURVE_n L"
  shows "\<exists>c Vbytes.
           generateSchnorrChallenge L uid (smul L g (nat (bytesToNumberBE x)))
             (smul L g (nat (bytesToNumberBE vb))) oi = Inr c \<and>
           toRawBytes L (smul L g (nat (bytesToNumberBE vb))) = Some Vbytes \<and>
           (let gx = smul L g (nat (bytesToNumberBE x));
                r = (bytesToNumberBE vb - bytesToNumberBE x * c) mod CURVE_n L;
                prf = [33] @ Vbytes @ [32] @ numberToBytesBE r 32
            in length prf = 67 \<and>
               generateSchnorrProof L uid x gx g oi vb \<noteq>
                 Inl (JPakeError ''Generated Schnorr proof is invalid'') \<and>
               (c \<noteq> 0 \<and> r \<noteq> 0 \<longrightarrow>
                  generateSchnorrProof L uid x gx g oi vb = Inr prf \<and>
                  verifySchnorrProof L uid gx prf g oi = Inr True))"
proof -
  have z: "zmul L g (bytesToNumberBE x) = smul L g (nat (bytesToNumberBE x))"
    "zmul L g (bytesToNumberBE vb) = smul L g (nat (bytesToNumberBE vb))"
    using assms(2,7) by (simp_all add: zmul_smul[OF assms(1)])
  from generate_run[OF assms, unfolded z]
  obtain c Vbytes r pr where
    c: "generateSchnorrChallenge L uid (smul L g (nat (bytesToNumberBE x)))
             (smul L g (nat (bytesToNumberBE vb))) oi = Inr c"
    and V: "toRawBytes L (smul L g (nat (bytesToNumberBE vb))) = Some Vbytes"
    and r: "r = (bytesToNumberBE vb - bytesToNumberBE x * c) mod CURVE_n L"
    and pr: "pr = [33] @ Vbytes @ [32] @ numberToBytesBE r 32" "length pr = 67"
    and alt: "verifySchnorrProof L uid (smul L g (nat (bytesToNumberBE x))) pr g oi = Inr True \<and>
           generateSchnorrProof L uid x (smul L g (nat (bytesToNumberBE x))) g oi vb = Inr pr \<or>
         verifySchnorrProof L uid (smul L g (nat (bytesToNumberBE x))) pr g oi = Inl LibraryError \<and>
           generateSchnorrProof L uid x (smul L g (nat (bytesToNumberBE x))) g oi vb =
             Inl LibraryError"
    and inr: "c \<noteq> 0 \<and> r \<noteq> 0 \<longrightarrow>
           verifySchnorrProof L uid (smul L g (nat (bytesToNumberBE x))) pr g oi = Inr True"
    by metis
  have 1: "generateSchnorrProof L uid x (smul L g (nat (bytesToNumberBE x))) g oi vb \<noteq>
          Inl (JPakeError ''Generated Schnorr proof is invalid'')"
    using alt by auto
  have 2: "generateSchnorrProof L uid x (smul L g (nat (bytesToNumberBE x))) g oi vb = Inr pr \<and>
           verifySchnorrProof L uid (smul L g (nat (bytesToNumberBE x))) pr g oi = Inr True"
    if "c \<noteq> 0 \<and> r \<noteq> 0"
    using alt inr that by auto
  show ?thesis
    apply (rule exI[of _ c], rule exI[of _ Vbytes])
    unfolding Let_def r[symmetric] pr(1)[symmetric]
    using c V pr(2) 1 2 by blast
qed

text \<open>Multiples of the base point in the small library.\<close>

lemma toy_smul: "smul toy P1 5 = P5" "smul toy P1 (Suc 0) = P1" "smul toy P1 6 = P6"
  "smul toy P1 2 = P2"
  by (simp_all add: smul_toy pt7_of_def del: smul.simps)

text \<open>
  That \<open>c\<close> and \<open>r\<close> are not 0 is a property of the hash and does not follow from the
  contract. Where one of them is 0, \<open>verifySchnorrProof\<close> hands it to \<open>multiply\<close>, which
  throws for a scalar outside \<open>[1, n)\<close>, and the error leaves \<open>generateSchnorrProof\<close>; no
  such input is known for SHA3-256 and the order of secp256k1. In the group of order 7,
  with Bob's \<open>x = 5\<close>, the nonce \<open>v = 1\<close> gives \<open>c = 0\<close> and the nonce \<open>v = 6\<close> gives
  \<open>c = 4\<close>, \<open>r = 0\<close>.
\<close>

lemma generateSchnorrProof_throws:
  "curve_ok toy \<and> bytesToNumberBE (key 5) = 5 \<and> CURVE_n toy = 7 \<and> P1 \<noteq> ZERO toy \<and>
   smul toy P1 5 = P5 \<and>
   bytesToNumberBE (key 1) = 1 \<and> smul toy P1 1 = P1 \<and>
   generateSchnorrChallenge toy (js ''Bob'') P5 P1 None = Inr 0 \<and>
   generateSchnorrProof toy (js ''Bob'') (key 5) P5 P1 None (key 1) = Inl LibraryError \<and>
   bytesToNumberBE (key 6) = 6 \<and> smul toy P1 6 = P6 \<and>
   generateSchnorrChallenge toy (js ''Bob'') P5 P6 None = Inr 4 \<and> (6 - 5 * 4) mod (7::int) = 0 \<and>
   generateSchnorrProof toy (js ''Bob'') (key 5) P5 P1 None (key 6) = Inl LibraryError"
proof -
  have "bytesToNumberBE (key 5) = 5" "bytesToNumberBE (key 1) = 1" "bytesToNumberBE (key 6) = 6"
    by (simp_all add: key_def bytesToNumberBE_numberToBytesBE)
  moreover have "generateSchnorrChallenge toy (js ''Bob'') P5 P1 None = Inr 0" by code_simp
  moreover have "generateSchnorrProof toy (js ''Bob'') (key 5) P5 P1 None (key 1) = Inl LibraryError"
    by code_simp
  moreover have "generateSchnorrChallenge toy (js ''Bob'') P5 P6 None = Inr 4" by code_simp
  moreover have "generateSchnorrProof toy (js ''Bob'') (key 5) P5 P1 None (key 6) = Inl LibraryError"
    by code_simp
  ultimately show ?thesis using toy_ok by (simp add: toy_smul toy_fields del: smul.simps)
qed

lemma generateSchnorrProof_complete_witness:
  "curve_ok toy \<and> 1 \<le> bytesToNumberBE (key 1) \<and> bytesToNumberBE (key 1) < CURVE_n toy \<and>
   P1 \<noteq> ZERO toy \<and> length (TextEncoder_encode (js ''Alice'')) \<le> 255 \<and>
   1 \<le> bytesToNumberBE (key 2) \<and> bytesToNumberBE (key 2) < CURVE_n toy \<and>
   generateSchnorrChallenge toy (js ''Alice'') P1 P2 None = Inr 3 \<and>
   toRawBytes toy P2 = Some (2 # key 2) \<and>
   generateSchnorrProof toy (js ''Alice'') (key 1) P1 P1 None (key 2) = Inr (toy_proof 2 6) \<and>
   verifySchnorrProof toy (js ''Alice'') P1 (toy_proof 2 6) P1 None = Inr True"
proof -
  have k: "bytesToNumberBE (key 1) = 1" "bytesToNumberBE (key 2) = 2"
    by (simp_all add: key_def bytesToNumberBE_numberToBytesBE)
  have c: "generateSchnorrChallenge toy (js ''Alice'') P1 P2 None = Inr 3" by code_simp
  have V: "toRawBytes toy P2 = Some (2 # key 2)" by (simp add: toy_fields key_def)
  have h: "1 \<le> bytesToNumberBE (key 1)" "bytesToNumberBE (key 1) < CURVE_n toy" "P1 \<noteq> ZERO toy"
    "length (TextEncoder_encode (js ''Alice'')) \<le> 255"
    "\<forall>i \<in> set (defaultInfo None). length (TextEncoder_encode i) \<le> 255"
    "1 \<le> bytesToNumberBE (key 2)" "bytesToNumberBE (key 2) < CURVE_n toy"
    by (simp_all add: k toy_fields toy_id_length defaultInfo_def)
  have p: "[33] @ (2 # key 2) @ [32] @ numberToBytesBE ((2 - 1 * 3) mod 7) 32 = toy_proof 2 6"
    by (simp add: toy_proof_def key_def)
  from generateSchnorrProof_complete[OF toy_ok h]
  show ?thesis
    using toy_ok h(1-4,6,7) c V p by (auto simp: Let_def k toy_smul toy_fields(1) simp del: smul.simps)
qed

lemma verify_bad_length:
  "length zkp \<noteq> 67 \<Longrightarrow>
   verifySchnorrProof L uid gx zkp g oi =
     Inl (VerificationError ''Invalid proof, must be 33 + 32 + 2 bytes long'')"
  by (simp add: verifySchnorrProof_def)

lemma verify_bad_prefix:
  "length zkp = 67 \<Longrightarrow> unat (zkp ! 0) \<noteq> 33 \<or> unat (zkp ! 34) \<noteq> 32 \<Longrightarrow>
   verifySchnorrProof L uid gx zkp g oi =
     Inl (VerificationError ''Invalid proof, V must be 33 bytes and r must be 32 bytes'')"
  by (auto simp: verifySchnorrProof_def Let_def at_def)

text \<open>
  C6, as amended. \<open>verifySchnorrProof\<close> throws VerificationError "Invalid proof, must be
  33 + 32 + 2 bytes long" unless the proof has 67 bytes; it throws VerificationError when
  byte 0 is not 33 or byte 34 is not 32; it returns false when bytes 1 to 33 do not decode.
  When they decode to \<open>V\<close> and \<open>gx\<close> is not the point at infinity, it throws
  InvalidArgumentError for a \<open>userId\<close> of more than 255 bytes; for a \<open>userId\<close> and \<open>otherInfo\<close>
  elements of at most 255 bytes the challenge \<open>c\<close> is computed, and when \<open>c\<close> is not 0 and
  the big-endian value \<open>r\<close> of bytes 35 to 66 lies in \<open>[1, n)\<close>, it returns true if and only
  if \<open>V\<close> is the sum of \<open>r\<close> copies of \<open>g\<close> and \<open>c\<close> copies of \<open>gx\<close>, the two sides compared
  through their affine coordinates.
\<close>

theorem verifySchnorrProof_cases:
  assumes "curve_ok L"
  shows
    "(length zkp \<noteq> 67 \<longrightarrow>
        verifySchnorrProof L uid gx zkp g oi =
          Inl (VerificationError ''Invalid proof, must be 33 + 32 + 2 bytes long'')) \<and>
     (length zkp = 67 \<and> (unat (zkp ! 0) \<noteq> 33 \<or> unat (zkp ! 34) \<noteq> 32) \<longrightarrow>
        verifySchnorrProof L uid gx zkp g oi =
          Inl (VerificationError ''Invalid proof, V must be 33 bytes and r must be 32 bytes'')) \<and>
     (length zkp = 67 \<and> unat (zkp ! 0) = 33 \<and> unat (zkp ! 34) = 32 \<and>
      fromHex L (sliceBytes zkp 1 34) = None \<longrightarrow>
        verifySchnorrProof L uid gx zkp g oi = Inr False) \<and>
     (length zkp = 67 \<and> unat (zkp ! 0) = 33 \<and> unat (zkp ! 34) = 32 \<and>
      fromHex L (sliceBytes zkp 1 34) = Some V \<and> gx \<noteq> ZERO L \<and>
      length (TextEncoder_encode uid) > 255 \<longrightarrow>
        verifySchnorrProof L uid gx zkp g oi =
          Inl (InvalidArgumentError
            ''userId is too long. It must be 255 bytes or less when UTF-8 encoded.'')) \<and>
     (length zkp = 67 \<and> unat (zkp ! 0) = 33 \<and> unat (zkp ! 34) = 32 \<and>
      fromHex L (sliceBytes zkp 1 34) = Some V \<and> gx \<noteq> ZERO L \<and>
      length (TextEncoder_encode uid) \<le> 255 \<and>
      (\<forall>i \<in> set (defaultInfo oi). length (TextEncoder_encode i) \<le> 255) \<longrightarrow>
        (\<exists>c. generateSchnorrChallenge L uid gx V oi = Inr c \<and> 0 \<le> c \<and> c < CURVE_n L \<and>
           (c \<noteq> 0 \<and> 1 \<le> bytesToNumberBE (sliceBytes zkp 35 67) \<and>
            bytesToNumberBE (sliceBytes zkp 35 67) < CURVE_n L \<longrightarrow>
              verifySchnorrProof L uid gx zkp g oi =
                Inr (V = add L (smul L g (nat (bytesToNumberBE (sliceBytes zkp 35 67))))
                               (smul L gx (nat c))))))"
proof (intro conjI impI)
  assume "length zkp \<noteq> 67"
  then show "verifySchnorrProof L uid gx zkp g oi =
          Inl (VerificationError ''Invalid proof, must be 33 + 32 + 2 bytes long'')"
    by (rule verify_bad_length)
next
  assume "length zkp = 67 \<and> (unat (zkp ! 0) \<noteq> 33 \<or> unat (zkp ! 34) \<noteq> 32)"
  then show "verifySchnorrProof L uid gx zkp g oi =
          Inl (VerificationError ''Invalid proof, V must be 33 bytes and r must be 32 bytes'')"
    using verify_bad_prefix[of zkp L uid gx g oi] by blast
next
  assume a: "length zkp = 67 \<and> unat (zkp ! 0) = 33 \<and> unat (zkp ! 34) = 32 \<and>
      fromHex L (sliceBytes zkp 1 34) = None"
  then have wf: "length zkp = 67" "unat (zkp ! 0) = 33" "unat (zkp ! 34) = 32" by simp_all
  show "verifySchnorrProof L uid gx zkp g oi = Inr False"
    using a by (simp only: verify_wellformed[OF wf] option.case)
next
  assume a: "length zkp = 67 \<and> unat (zkp ! 0) = 33 \<and> unat (zkp ! 34) = 32 \<and>
      fromHex L (sliceBytes zkp 1 34) = Some V \<and> gx \<noteq> ZERO L \<and>
      length (TextEncoder_encode uid) > 255"
  then have wf: "length zkp = 67" "unat (zkp ! 0) = 33" "unat (zkp ! 34) = 32" by simp_all
  from a have V: "fromHex L (sliceBytes zkp 1 34) = Some V" by simp
  from a ok_encode[OF assms, of gx] obtain gxb where gxb: "toRawBytes L gx = Some gxb" by blast
  from ok_encode[OF assms ok_fromHex[OF assms V]] obtain Vb where Vb: "toRawBytes L V = Some Vb"
    by blast
  from a have "generateSchnorrChallenge L uid gx V oi =
      Inl (InvalidArgumentError
            ''userId is too long. It must be 255 bytes or less when UTF-8 encoded.'')"
    by (intro challenge_userId_too_long[OF gxb Vb]) simp
  then show "verifySchnorrProof L uid gx zkp g oi =
      Inl (InvalidArgumentError
            ''userId is too long. It must be 255 bytes or less when UTF-8 encoded.'')"
    by (simp only: verify_wellformed[OF wf] V option.case bind_Inl)
next
  assume a: "length zkp = 67 \<and> unat (zkp ! 0) = 33 \<and> unat (zkp ! 34) = 32 \<and>
      fromHex L (sliceBytes zkp 1 34) = Some V \<and> gx \<noteq> ZERO L \<and>
      length (TextEncoder_encode uid) \<le> 255 \<and>
      (\<forall>i \<in> set (defaultInfo oi). length (TextEncoder_encode i) \<le> 255)"
  then have wf: "length zkp = 67" "unat (zkp ! 0) = 33" "unat (zkp ! 34) = 32" by simp_all
  from a have V: "fromHex L (sliceBytes zkp 1 34) = Some V" by simp
  from a have uid: "length (TextEncoder_encode uid) \<le> 255"
    and oi: "\<forall>i \<in> set (defaultInfo oi). length (TextEncoder_encode i) \<le> 255" by simp_all
  from a ok_encode[OF assms, of gx] obtain gxb where
    gxb: "toRawBytes L gx = Some gxb" "length gxb = 33" by blast
  from ok_encode[OF assms ok_fromHex[OF assms V]] obtain Vb where
    Vb: "toRawBytes L V = Some Vb" "length Vb = 33" by blast
  have n: "0 < CURVE_n L" using ok_n(1)[OF assms] by simp
  from challenge_value[OF gxb Vb uid oi n] obtain c where
    c: "generateSchnorrChallenge L uid gx V oi = Inr c" "0 \<le> c" "c < CURVE_n L" by blast
  define r where "r = bytesToNumberBE (sliceBytes zkp 35 67)"
  have "verifySchnorrProof L uid gx zkp g oi =
          Inr (V = add L (smul L g (nat r)) (smul L gx (nat c)))"
    if "c \<noteq> 0 \<and> 1 \<le> r \<and> r < CURVE_n L"
  proof -
    from that c(2) have c1: "1 \<le> c" and r1: "1 \<le> r" "r < CURVE_n L" by simp_all
    have "verifySchnorrProof L uid gx zkp g oi = Inr (V = add L (zmul L g r) (zmul L gx c))"
      by (rule verify_in_range[OF assms wf V c(1) c1 c(3) r_def r1])
    then show ?thesis using c(2) r1 by (simp add: zmul_smul[OF assms])
  qed
  with c show "\<exists>c. generateSchnorrChallenge L uid gx V oi = Inr c \<and> 0 \<le> c \<and> c < CURVE_n L \<and>
           (c \<noteq> 0 \<and> 1 \<le> bytesToNumberBE (sliceBytes zkp 35 67) \<and>
            bytesToNumberBE (sliceBytes zkp 35 67) < CURVE_n L \<longrightarrow>
              verifySchnorrProof L uid gx zkp g oi =
                Inr (V = add L (smul L g (nat (bytesToNumberBE (sliceBytes zkp 35 67))))
                               (smul L gx (nat c))))"
    unfolding r_def by blast
qed

lemma toy_proof_format:
  "length (toy_proof v r) = 67 \<and> unat (toy_proof v r ! 0) = 33 \<and> unat (toy_proof v r ! 34) = 32"
  if "0 \<le> v" "v < 7" "0 \<le> r" "r < 7"
proof -
  have "length (key v) = 32" "length (key r) = 32"
    using that by (simp_all add: key_def length_numberToBytesBE)
  then show ?thesis by (simp add: toy_proof_def nth_append)
qed

text \<open>
  C6 as stated fails: for a well-formed proof whose \<open>V\<close> decodes, a \<open>userId\<close> of 256 bytes
  makes \<open>verifySchnorrProof\<close> throw InvalidArgumentError, and a response \<open>r = 0\<close> makes the
  library's \<open>multiply\<close> throw; neither call returns a truth value.
\<close>

theorem verifySchnorrProof_throws:
  "length (toy_proof 2 6) = 67 \<and> unat (toy_proof 2 6 ! 0) = 33 \<and>
   unat (toy_proof 2 6 ! 34) = 32 \<and>
   fromHex toy (sliceBytes (toy_proof 2 6) 1 34) = Some P2 \<and>
   verifySchnorrProof toy (replicate 256 0x61) P1 (toy_proof 2 6) P1 None =
     Inl (InvalidArgumentError
       ''userId is too long. It must be 255 bytes or less when UTF-8 encoded.'') \<and>
   length (toy_proof 2 0) = 67 \<and> unat (toy_proof 2 0 ! 0) = 33 \<and>
   unat (toy_proof 2 0 ! 34) = 32 \<and>
   fromHex toy (sliceBytes (toy_proof 2 0) 1 34) = Some P2 \<and>
   bytesToNumberBE (sliceBytes (toy_proof 2 0) 35 67) = 0 \<and>
   verifySchnorrProof toy (js ''Alice'') P1 (toy_proof 2 0) P1 None = Inl LibraryError"
proof -
  have "fromHex toy (sliceBytes (toy_proof 2 6) 1 34) = Some P2" by code_simp
  moreover have "verifySchnorrProof toy (replicate 256 0x61) P1 (toy_proof 2 6) P1 None =
     Inl (InvalidArgumentError
       ''userId is too long. It must be 255 bytes or less when UTF-8 encoded.'')"
    by code_simp
  moreover have "fromHex toy (sliceBytes (toy_proof 2 0) 1 34) = Some P2" by code_simp
  moreover have "bytesToNumberBE (sliceBytes (toy_proof 2 0) 35 67) = 0" by code_simp
  moreover have "verifySchnorrProof toy (js ''Alice'') P1 (toy_proof 2 0) P1 None = Inl LibraryError"
    by code_simp
  ultimately show ?thesis
    using toy_proof_format[of 2 6] toy_proof_format[of 2 0] by simp
qed

theorem verifySchnorrProof_cases_witness:
  "curve_ok toy \<and>
   length [1::byte] \<noteq> 67 \<and>
   verifySchnorrProof toy (js ''Alice'') P1 [1] P1 None =
     Inl (VerificationError ''Invalid proof, must be 33 + 32 + 2 bytes long'') \<and>
   length (toy_proof 2 6) = 67 \<and> unat (toy_proof 2 6 ! 0) = 33 \<and>
   unat (toy_proof 2 6 ! 34) = 32 \<and>
   fromHex toy (sliceBytes (toy_proof 2 6) 1 34) = Some P2 \<and> P1 \<noteq> ZERO toy \<and>
   length (TextEncoder_encode (js ''Alice'')) \<le> 255 \<and>
   generateSchnorrChallenge toy (js ''Alice'') P1 P2 None = Inr 3 \<and>
   bytesToNumberBE (sliceBytes (toy_proof 2 6) 35 67) = 6 \<and>
   verifySchnorrProof toy (js ''Alice'') P1 (toy_proof 2 6) P1 None =
     Inr (P2 = add toy (smul toy P1 6) (smul toy P1 3))"
proof -
  have f: "length (toy_proof 2 6) = 67" "unat (toy_proof 2 6 ! 0) = 33"
    "unat (toy_proof 2 6 ! 34) = 32"
    using toy_proof_format[of 2 6] by simp_all
  have V: "fromHex toy (sliceBytes (toy_proof 2 6) 1 34) = Some P2" by code_simp
  have c: "generateSchnorrChallenge toy (js ''Alice'') P1 P2 None = Inr 3" by code_simp
  have r: "bytesToNumberBE (sliceBytes (toy_proof 2 6) 35 67) = 6" by code_simp
  have u: "length (TextEncoder_encode (js ''Alice'')) \<le> 255"
    "\<forall>i \<in> set (defaultInfo None). length (TextEncoder_encode i) \<le> 255"
    by (simp_all add: toy_id_length defaultInfo_def)
  have z: "P1 \<noteq> ZERO toy" by (simp add: toy_fields)
  show ?thesis
    using toy_ok f V c r u z
      verifySchnorrProof_cases[OF toy_ok, of "[1]" "(js ''Alice'')" P1 P1 None P2]
      verifySchnorrProof_cases[OF toy_ok, of "toy_proof 2 6" "(js ''Alice'')" P1 P1 None P2]
    by (auto simp: toy_fields(1) simp del: smul.simps)
qed

section \<open>The new generator in round 2\<close>

lemma generate_Inr:
  assumes "generateSchnorrProof L uid x gx g oi vb = Inr p"
  obtains V c Vbytes where
    "multiply L g (bytesToNumberBE vb) = Some V"
    "generateSchnorrChallenge L uid gx V oi = Inr c"
    "toRawBytes L V = Some Vbytes" "length Vbytes = 33"
    "length (numberToBytesBE
       (mod_noble (bytesToNumberBE vb - bytesToNumberBE x * c) (CURVE_n L)) 32) = 32"
    "p = [33] @ Vbytes @ [32] @
         numberToBytesBE (mod_noble (bytesToNumberBE vb - bytesToNumberBE x * c) (CURVE_n L)) 32"
    "verifySchnorrProof L uid gx p g oi = Inr True"
proof -
  from assms obtain V where V: "multiply L g (bytesToNumberBE vb) = Some V"
    by (auto simp: generateSchnorrProof_def Let_def bind_Inr_iff lib_Inr_iff)
  from assms V obtain c where c: "generateSchnorrChallenge L uid gx V oi = Inr c"
    by (auto simp: generateSchnorrProof_def Let_def bind_Inr_iff)
  from assms V c obtain Vbytes where Vb: "toRawBytes L V = Some Vbytes"
    by (auto simp: generateSchnorrProof_def Let_def bind_Inr_iff lib_Inr_iff)
  define rb where
    "rb = numberToBytesBE (mod_noble (bytesToNumberBE vb - bytesToNumberBE x * c) (CURVE_n L)) 32"
  from assms V c Vb have l: "length Vbytes = 33" "length rb = 32"
    by (auto simp: generateSchnorrProof_def Let_def rb_def split: if_splits)
  from assms V c Vb l have p: "p = [33] @ Vbytes @ [32] @ rb"
    and v: "verifySchnorrProof L uid gx ([33] @ Vbytes @ [32] @ rb) g oi = Inr True"
    by (auto simp: generateSchnorrProof_def Let_def rb_def[symmetric] bind_Inr_iff
          split: if_splits)
  show thesis
    using that[OF V c Vb l(1) l(2)[unfolded rb_def] p[unfolded rb_def]] v p by simp
qed

lemma generate_ZERO_generator:
  assumes ok: "curve_ok L"
  shows "generateSchnorrProof L uid x (ZERO L) (ZERO L) oi vb \<noteq> Inr p"
proof
  assume "generateSchnorrProof L uid x (ZERO L) (ZERO L) oi vb = Inr p"
  then obtain Vbytes rb where
    l: "length Vbytes = 33" "length rb = 32"
    and p: "p = [33] @ Vbytes @ [32] @ rb"
    and v: "verifySchnorrProof L uid (ZERO L) p (ZERO L) oi = Inr True"
    by (rule generate_Inr) blast
  note parts = proof_parts[OF l]
  have wf: "length p = 67" "unat (p ! 0) = 33" "unat (p ! 34) = 32"
    using parts(1,2,3) by (simp_all add: p at_def split: if_splits)
  have sl: "sliceBytes p 1 34 = Vbytes" using parts(4) by (simp add: p)
  from v obtain V' where V': "fromHex L Vbytes = Some V'"
    by (cases "fromHex L Vbytes") (simp_all only: verify_wellformed[OF wf] sl option.case, simp)
  from v V' obtain c' gr gxc where
    m1: "multiply L (ZERO L) (bytesToNumberBE (sliceBytes p 35 67)) = Some gr"
    and m2: "multiply L (ZERO L) c' = Some gxc"
    and eq: "toAffine L V' = toAffine L (add L gr gxc)"
    unfolding verify_wellformed[OF wf] sl
    by (auto simp: bind_Inr_iff lib_Inr_iff)
  have "gr = ZERO L" "gxc = ZERO L"
    using ok_multiply_Some[OF ok m1] ok_multiply_Some[OF ok m2] by (simp_all add: zmul_ZERO[OF ok])
  with eq have "V' = ZERO L" by (simp add: ok_toAffine[OF ok] ok_add_ZERO[OF ok])
  with ok_fromHex[OF ok V'] show False by simp
qed

lemma challenge_error_kind:
  "generateSchnorrChallenge L uid gx gr oi = Inl e \<Longrightarrow>
   e = LibraryError \<or> (\<exists>m. e = InvalidArgumentError m)"
proof -
  have i: "encodeInfos is = Inl e \<Longrightarrow> \<exists>m. e = InvalidArgumentError m" for "is"
    by (induction "is") (auto simp: bind_Inl_iff encodeInfo_def Let_def split: if_splits)
  show "generateSchnorrChallenge L uid gx gr oi = Inl e \<Longrightarrow>
        e = LibraryError \<or> (\<exists>m. e = InvalidArgumentError m)"
    by (auto simp: generateSchnorrChallenge_def Let_def bind_Inl_iff lib_Inl_iff
          split: if_splits dest: i)
qed

lemma verify_error_message:
  "verifySchnorrProof L uid gx zkp g oi = Inl (VerificationError m) \<Longrightarrow>
   m = ''Invalid proof, must be 33 + 32 + 2 bytes long'' \<or>
   m = ''Invalid proof, V must be 33 bytes and r must be 32 bytes''"
  by (auto simp: verifySchnorrProof_def Let_def bind_Inl_iff lib_Inl_iff
        split: if_splits option.splits dest: challenge_error_kind)

lemma generate_error_message:
  "generateSchnorrProof L uid x gx g oi vb = Inl (VerificationError m) \<Longrightarrow>
   m = ''Invalid proof, must be 33 + 32 + 2 bytes long'' \<or>
   m = ''Invalid proof, V must be 33 bytes and r must be 32 bytes''"
  by (auto simp: generateSchnorrProof_def Let_def bind_Inl_iff lib_Inl_iff
        split: if_splits dest: challenge_error_kind verify_error_message)

lemma verifyPeer_error_message:
  "verifyPeerProof L this uid gx zkp g = Inl (VerificationError m) \<Longrightarrow>
   m = ''Proof verification failed, userIds are equal.'' \<or>
   m = ''Invalid proof, must be 33 + 32 + 2 bytes long'' \<or>
   m = ''Invalid proof, V must be 33 bytes and r must be 32 bytes''"
  by (auto simp: verifyPeerProof_def split: if_splits dest: verify_error_message)

text \<open>
  C8. When \<open>G1 + G3 + G4\<close> is the point at infinity, \<open>round2\<close> does fail, but never with
  VerificationError "Invalid point: The new generator is the point at infinity": the
  Schnorr proof for \<open>x2 * s\<close> is generated with that generator before the test, and this
  call never returns a proof for the point at infinity, whatever the library does there,
  so that the test is not reached.
\<close>

theorem round2_infinity_check_dead:
  assumes ok: "curve_ok L"
    and g1: "G1 this = Some g1"
    and g3: "r1_G1 r = Some b1" "fromHex L b1 = Some g3"
    and g4: "r1_G2 r = Some b2" "fromHex L b2 = Some g4"
    and inf: "add L (add L g1 g3) g4 = ZERO L"
  shows "\<exists>e. fst (round2 L this r s peerId vb) = Inl e \<and>
             e \<noteq> VerificationError ''Invalid point: The new generator is the point at infinity''"
proof -
  let ?m = "''Invalid point: The new generator is the point at infinity''"
  have A: "A = ZERO L" if "multiply L (ZERO L) k = Some A" for k A
    using ok_multiply_Some[OF ok that] by (simp add: zmul_ZERO[OF ok])
  have gen: "generateSchnorrProof L uid x A (ZERO L) oi vb \<noteq> Inr p"
    if "multiply L (ZERO L) k = Some A" for uid x A oi p k
    using generate_ZERO_generator[OF ok] A[OF that] by simp
  have gm: "generateSchnorrProof L uid x A g oi vb \<noteq> Inl (VerificationError ?m)" for uid x A g oi
    using generate_error_message[of L uid x A g oi vb ?m] by auto
  have pm: "verifyPeerProof L t peerId gx zkp g \<noteq> Inl (VerificationError ?m)" for t gx zkp g
    using verifyPeer_error_message[of L t peerId gx zkp g ?m] by auto
  show ?thesis
    using g1 g3 g4 inf gen gm pm
    by (auto simp: round2_def Let_def split: option.splits sum.splits if_splits)
qed

lemma toy_round2_infinity:
  "round2 toy alice1 bobR1_inf (Some (key 3)) (js ''Bob'') (key 1) =
     (Inl LibraryError,
      alice1\<lparr>bobUserId := Some (js ''Bob''), G3 := Some P2, G4 := Some P4, x2s := Some (key 6)\<rparr>)"
  by code_simp

lemma toy_bob_round1_inf:
  "fst (round1 toy bob0 (key 2) (key 4) (key 1) (key 3)) = Inr bobR1_inf"
  by code_simp

theorem round2_infinity_check_dead_witness:
  "curve_ok toy \<and> G1 alice1 = Some P1 \<and>
   r1_G1 bobR1_inf = Some (2 # key 2) \<and> fromHex toy (2 # key 2) = Some P2 \<and>
   r1_G2 bobR1_inf = Some (2 # key 4) \<and> fromHex toy (2 # key 4) = Some P4 \<and>
   add toy (add toy P1 P2) P4 = ZERO toy \<and>
   fst (round1 toy bob0 (key 2) (key 4) (key 1) (key 3)) = Inr bobR1_inf \<and>
   fst (round2 toy alice1 bobR1_inf (Some (key 3)) (js ''Bob'') (key 1)) = Inl LibraryError \<and>
   LibraryError \<noteq> VerificationError ''Invalid point: The new generator is the point at infinity''"
proof -
  have h: "G1 alice1 = Some P1" "r1_G1 bobR1_inf = Some (2 # key 2)"
    "r1_G2 bobR1_inf = Some (2 # key 4)"
    by (simp_all add: alice1_def bobR1_inf_def)
  have d: "fromHex toy (2 # key 2) = Some P2" "fromHex toy (2 # key 4) = Some P4"
    by code_simp+
  have s: "add toy (add toy P1 P2) P4 = ZERO toy" by code_simp
  from round2_infinity_check_dead[OF toy_ok h(1) h(2) d(1) h(3) d(2) s,
      of "Some (key 3)" "(js ''Bob'')" "key 1"]
  show ?thesis
    using toy_ok h d s toy_bob_round1_inf by (simp add: toy_round2_infinity)
qed

section \<open>Key agreement\<close>

text \<open>What a call that returned has done.\<close>

lemma round1_Inr:
  assumes "round1 L t x1b x2b v1b v2b = (Inr m, t')"
  obtains g1 g2 z1 z2 e1 e2 where
    "state t = INITIAL"
    "multiply L (BASE L) (bytesToNumberBE x1b) = Some g1"
    "multiply L (BASE L) (bytesToNumberBE x2b) = Some g2"
    "generateSchnorrProof L (userId t) x1b g1 (BASE L) (otherInfo t) v1b = Inr z1"
    "generateSchnorrProof L (userId t) x2b g2 (BASE L) (otherInfo t) v2b = Inr z2"
    "toRawBytes L g1 = Some e1" "toRawBytes L g2 = Some e2"
    "m = \<lparr>r1_G1 = Some e1, r1_G2 = Some e2, r1_ZKPx1 = Some z1, r1_ZKPx2 = Some z2\<rparr>"
    "t' = t\<lparr>x1 := Some x1b, x2 := Some x2b, G1 := Some g1, G2 := Some g2,
            state := ROUND1FINISHED\<rparr>"
  using assms
  by (auto simp: round1_def Let_def split: if_splits option.splits sum.splits)

lemma round2_Inr:
  assumes "round2 L t m s peerId vb = (Inr m2, t')"
  obtains b1 b2 z1 sb x2b g1 g3 g4 A zkp aB where
    "state t = ROUND1FINISHED"
    "r1_G1 m = Some b1" "r1_G2 m = Some b2" "r1_ZKPx1 m = Some z1" "s = Some sb" "peerId \<noteq> []"
    "x2 t = Some x2b" "G1 t = Some g1"
    "fromHex L b1 = Some g3" "fromHex L b2 = Some g4"
    "mod_noble (bytesToNumberBE sb) (CURVE_n L) \<noteq> 0"
    "verifyPeerProof L (t\<lparr>bobUserId := Some peerId\<rparr>) peerId g3 z1 (BASE L) = Inr True"
    "multiply L (add L (add L g1 g3) g4)
       (bytesToNumberBE (numberToBytesBE
          (mod_noble (bytesToNumberBE x2b * bytesToNumberBE sb) (CURVE_n L)) 32)) = Some A"
    "generateSchnorrProof L (userId t)
       (numberToBytesBE (mod_noble (bytesToNumberBE x2b * bytesToNumberBE sb) (CURVE_n L)) 32)
       A (add L (add L g1 g3) g4) (otherInfo t) vb = Inr zkp"
    "\<not> equals L (add L (add L g1 g3) g4) (ZERO L)"
    "toRawBytes L A = Some aB"
    "m2 = \<lparr>r2_A = Some aB, r2_ZKPx2s = Some zkp\<rparr>"
    "t' = t\<lparr>bobUserId := Some peerId, G3 := Some g3, G4 := Some g4,
            x2s := Some (numberToBytesBE
              (mod_noble (bytesToNumberBE x2b * bytesToNumberBE sb) (CURVE_n L)) 32),
            state := ROUND2FINISHED\<rparr>"
  using assms
  by (auto simp: round2_def Let_def split: if_splits option.splits sum.splits)

lemma set_Inr:
  assumes "setRound2ResultFromBob L t m2 = (Inr u, t')"
  obtains bA z b where
    "state t = ROUND2FINISHED"
    "r2_A m2 = Some bA" "r2_ZKPx2s m2 = Some z" "fromHex L bA = Some b"
    "t' = t\<lparr>B := Some b, ZKPx2sBob := Some z, state := ROUND2RESULTSRECEIVED\<rparr>"
  using assms
  by (auto simp: setRound2ResultFromBob_def Let_def split: if_splits option.splits)

lemma derive_fields_cases:
  assumes "state t = ROUND2RESULTSRECEIVED" "B t = Some b" "G1 t = Some g1" "G2 t = Some g2"
    "G3 t = Some g3" "G4 t = Some g4" "x2 t = Some x2b" "x2s t = Some x2sb"
    "ZKPx2sBob t = Some zkp" "bobUserId t = Some peer" "peer \<noteq> []"
    "\<not> equals L b (ZERO L)"
    "verifyPeerProof L t peer b zkp (add L (add L g1 g3) g2) = Inr True"
    "multiply L g4 (bytesToNumberBE x2sb) = Some q"
    "multiply L (subtract L b q) (bytesToNumberBE x2b) = Some Ka"
  shows "deriveSharedKey L t =
           (case toRawBytes L Ka of None \<Rightarrow> (Inl LibraryError, t)
            | Some kb \<Rightarrow> (Inr (sha3_256 L kb), t\<lparr>state := KEYDERIVED\<rparr>))"
  by (simp add: deriveSharedKey_def Let_def assms)

lemma encode_roundtrip:
  assumes "curve_ok L" "P \<noteq> ZERO L" "toRawBytes L P = Some e"
  shows "fromHex L e = Some P"
  using ok_encode[OF assms(1,2)] assms(3) by auto

lemma private_key_range:
  "private_key L kb \<Longrightarrow> 1 \<le> bytesToNumberBE kb \<and> bytesToNumberBE kb < CURVE_n L"
  by (simp add: private_key_def)

lemma not_dvd_in_range: "1 \<le> k \<Longrightarrow> k < n \<Longrightarrow> \<not> n dvd (k::int)"
  by (simp add: zdvd_not_zless)

lemma key_exponent:
  fixes n :: int
  shows "((X3 + X1 + X2) * (X4 * S mod n) - X4 * (X2 * S mod n)) * X2 mod n =
         (X1 + X3) * X2 * X4 * S mod n"
proof -
  define q4 where "q4 = X4 * S div n"
  define q2 where "q2 = X2 * S div n"
  have e4: "X4 * S mod n = X4 * S - n * q4" by (simp add: q4_def minus_mult_div_eq_mod)
  have e2: "X2 * S mod n = X2 * S - n * q2" by (simp add: q2_def minus_mult_div_eq_mod)
  have "((X3 + X1 + X2) * (X4 * S mod n) - X4 * (X2 * S mod n)) * X2 - (X1 + X3) * X2 * X4 * S =
        n * ((X4 * q2 - (X3 + X1 + X2) * q4) * X2)"
    unfolding e4 e2 by (simp add: algebra_simps)
  then have "n dvd ((X3 + X1 + X2) * (X4 * S mod n) - X4 * (X2 * S mod n)) * X2 -
               (X1 + X3) * X2 * X4 * S"
    by simp
  then show ?thesis by (simp add: mod_eq_dvd_iff)
qed

lemma mod_in_range:
  assumes "0 < n" "\<not> n dvd a"
  shows "1 \<le> a mod n \<and> a mod n < (n::int)"
proof -
  have "0 \<le> a mod n" "a mod n < n" using assms(1) by simp_all
  moreover have "a mod n \<noteq> 0" using assms(2) by (simp add: dvd_eq_mod_eq_0)
  ultimately show ?thesis by linarith
qed

text \<open>
  One party's key derivation, from its own three calls and the peer's two. The point the
  party reaches is the multiple \<open>(x1 + x3) * x2 * x4 * s\<close> of the base point:
  \<open>deriveSharedKey\<close> returns the hash of its encoding, and throws the library's error if
  the library refuses to encode it.
\<close>

lemma derive_key_cases:
  assumes ok: "curve_ok L"
    and idA: "userId a0 = uidA" "otherInfo a0 = oi"
    and idB: "userId b0 = uidB" "otherInfo b0 = oi"
    and kA: "private_key L x1b" "private_key L x2b"
    and kB: "private_key L x3b" "private_key L x4b"
    and r1A: "round1 L a0 x1b x2b v1 v2 = (Inr m1A, a1)"
    and r1B: "round1 L b0 x3b x4b v3 v4 = (Inr m1B, b1)"
    and r2A: "round2 L a1 m1B (Some sb) uidB v5 = (Inr m2A, a2)"
    and r2B: "round2 L b1 m1A (Some sb) uidA v6 = (Inr m2B, b2)"
    and sA: "setRound2ResultFromBob L a2 m2B = (Inr u, a3)"
    and K: "K = zmul L (BASE L)
              ((bytesToNumberBE x1b + bytesToNumberBE x3b) * bytesToNumberBE x2b *
                bytesToNumberBE x4b * bytesToNumberBE sb)"
  shows "deriveSharedKey L a3 =
           (case toRawBytes L K of None \<Rightarrow> (Inl LibraryError, a3)
            | Some kb \<Rightarrow> (Inr (sha3_256 L kb), a3\<lparr>state := KEYDERIVED\<rparr>))"
proof -
  define n where "n = CURVE_n L"
  define X1 where "X1 = bytesToNumberBE x1b"
  define X2 where "X2 = bytesToNumberBE x2b"
  define X3 where "X3 = bytesToNumberBE x3b"
  define X4 where "X4 = bytesToNumberBE x4b"
  define S where "S = bytesToNumberBE sb"
  define Bp where "Bp = BASE L"
  have n: "1 < n" "n < 2 ^ 256" using ok_n[OF ok] by (simp_all add: n_def)
  have X: "1 \<le> X1" "X1 < n" "1 \<le> X2" "X2 < n" "1 \<le> X3" "X3 < n" "1 \<le> X4" "X4 < n"
    using kA kB by (simp_all add: private_key_def X1_def X2_def X3_def X4_def n_def)
  have B0: "Bp \<noteq> ZERO L" using ok_BASE[OF ok] by (simp add: Bp_def)
  note zadd = zmul_add[OF ok] and zz = zmul_zmul[OF ok]

  \<comment> \<open>round 1 of both parties\<close>
  from r1A obtain gA1 gA2 zA1 zA2 eA1 eA2 where A1:
    "multiply L Bp X1 = Some gA1" "multiply L Bp X2 = Some gA2"
    "toRawBytes L gA1 = Some eA1" "toRawBytes L gA2 = Some eA2"
    "m1A = \<lparr>r1_G1 = Some eA1, r1_G2 = Some eA2, r1_ZKPx1 = Some zA1, r1_ZKPx2 = Some zA2\<rparr>"
    "a1 = a0\<lparr>x1 := Some x1b, x2 := Some x2b, G1 := Some gA1, G2 := Some gA2,
             state := ROUND1FINISHED\<rparr>"
    unfolding Bp_def X1_def X2_def by (rule round1_Inr) blast
  from r1B obtain gB1 gB2 zB1 zB2 eB1 eB2 where B1:
    "multiply L Bp X3 = Some gB1" "multiply L Bp X4 = Some gB2"
    "toRawBytes L gB1 = Some eB1" "toRawBytes L gB2 = Some eB2"
    "m1B = \<lparr>r1_G1 = Some eB1, r1_G2 = Some eB2, r1_ZKPx1 = Some zB1, r1_ZKPx2 = Some zB2\<rparr>"
    "b1 = b0\<lparr>x1 := Some x3b, x2 := Some x4b, G1 := Some gB1, G2 := Some gB2,
             state := ROUND1FINISHED\<rparr>"
    unfolding Bp_def X3_def X4_def by (rule round1_Inr) blast
  have g: "gA1 = zmul L Bp X1" "gA2 = zmul L Bp X2" "gB1 = zmul L Bp X3" "gB2 = zmul L Bp X4"
    using A1(1,2) B1(1,2) by (simp_all add: ok_multiply_Some[OF ok])
  have g0: "gA1 \<noteq> ZERO L" "gA2 \<noteq> ZERO L" "gB1 \<noteq> ZERO L" "gB2 \<noteq> ZERO L"
    unfolding g using X by (simp_all add: zmul_nonzero[OF ok B0] n_def)
  have dec: "fromHex L eA1 = Some gA1" "fromHex L eA2 = Some gA2"
    "fromHex L eB1 = Some gB1" "fromHex L eB2 = Some gB2"
    using A1(3,4) B1(3,4) g0 by (simp_all add: encode_roundtrip[OF ok])

  \<comment> \<open>Alice's round 2: what she stores\<close>
  define x2sA where "x2sA = numberToBytesBE (mod_noble (X2 * S) n) 32"
  from r2A have A2a: "uidB \<noteq> []"
    by (rule round2_Inr)
  from r2A have A2b: "mod_noble S n \<noteq> 0"
    unfolding S_def n_def by (rule round2_Inr) simp
  from r2A have A2c:
    "a2 = a1\<lparr>bobUserId := Some uidB, G3 := Some gB1, G4 := Some gB2, x2s := Some x2sA,
             state := ROUND2FINISHED\<rparr>"
    unfolding x2sA_def S_def n_def X2_def
    by (rule round2_Inr) (clarsimp simp: A1(6) B1(5) dec)
  note A2 = A2a A2b x2sA_def A2c
  have S0: "\<not> n dvd S" using A2(2) n by (simp add: mod_noble_eq dvd_eq_mod_eq_0)

  \<comment> \<open>Bob's round 2: the message he sends\<close>
  define genB where "genB = add L (add L gB1 gA1) gA2"
  define x2sB where "x2sB = numberToBytesBE (mod_noble (X4 * S) n) 32"
  from r2B obtain AB zkpB aB where B2:
    "uidA \<noteq> []"
    "verifyPeerProof L (b1\<lparr>bobUserId := Some uidA\<rparr>) uidA gA1 zA1 Bp = Inr True"
    "multiply L genB (bytesToNumberBE x2sB) = Some AB"
    "generateSchnorrProof L uidB x2sB AB genB oi v6 = Inr zkpB"
    "\<not> equals L genB (ZERO L)"
    "toRawBytes L AB = Some aB"
    "m2B = \<lparr>r2_A = Some aB, r2_ZKPx2s = Some zkpB\<rparr>"
    unfolding genB_def x2sB_def S_def n_def X4_def Bp_def
    by (rule round2_Inr) (auto simp: B1(6) A1(5) dec idB)
  have ids: "uidA \<noteq> uidB"
    using B2(2) by (auto simp: verifyPeerProof_def B1(6) idB split: if_splits)
  have x2sB: "bytesToNumberBE x2sB = X4 * S mod n"
    using n by (simp add: x2sB_def mod_noble_eq bytesToNumberBE_numberToBytesBE)
  have x2sA: "bytesToNumberBE x2sA = X2 * S mod n"
    using n by (simp add: A2(3) mod_noble_eq bytesToNumberBE_numberToBytesBE)
  have nd4: "\<not> n dvd X4 * S" and nd2: "\<not> n dvd X2 * S"
    using ok_prime[OF ok, of X4 S] ok_prime[OF ok, of X2 S] S0 X not_dvd_in_range[of X4 n]
      not_dvd_in_range[of X2 n] by (auto simp: n_def)
  have r4: "1 \<le> X4 * S mod n" "X4 * S mod n < n" and r2: "1 \<le> X2 * S mod n" "X2 * S mod n < n"
    using mod_in_range[OF _ nd4] mod_in_range[OF _ nd2] n by simp_all
  have genB: "genB = zmul L Bp (X3 + X1 + X2)" by (simp add: genB_def g zadd)
  have genB0: "genB \<noteq> ZERO L" using B2(5) by (simp add: ok_equals[OF ok])
  have AB: "AB = zmul L genB (X4 * S mod n)"
    using ok_multiply_Some[OF ok B2(3)] by (simp add: x2sB)
  have AB0: "AB \<noteq> ZERO L"
    unfolding AB using r4 by (simp add: zmul_nonzero[OF ok genB0] n_def)
  have verB: "verifySchnorrProof L uidB AB zkpB genB oi = Inr True"
    using B2(4) by (rule generate_Inr) simp

  \<comment> \<open>Alice receives Bob's message\<close>
  from sA have a3: "a3 = a2\<lparr>B := Some AB, ZKPx2sBob := Some zkpB, state := ROUND2RESULTSRECEIVED\<rparr>"
    by (rule set_Inr) (auto simp: B2(7) encode_roundtrip[OF ok AB0 B2(6)])

  \<comment> \<open>Alice derives the key\<close>
  have genA: "add L (add L gA1 gB1) gA2 = genB"
    unfolding genB g by (simp add: zadd add.commute)
  have ver: "verifyPeerProof L a3 uidB AB zkpB (add L (add L gA1 gB1) gA2) = Inr True"
    using ids A2(1) verB by (simp add: verifyPeerProof_def genA a3 A2(4) A1(6) idA)
  have q: "multiply L gB2 (bytesToNumberBE x2sA) = Some (zmul L gB2 (X2 * S mod n))"
    using ok_multiply[OF ok r2(1)[unfolded n_def] r2(2)[unfolded n_def], of gB2]
    by (simp add: x2sA n_def)
  define D where "D = subtract L AB (zmul L gB2 (X2 * S mod n))"
  have Ka: "multiply L D (bytesToNumberBE x2b) = Some (zmul L D X2)"
    using ok_multiply[OF ok X(3)[unfolded X2_def] X(4)[unfolded n_def X2_def], of D]
    by (simp add: X2_def)
  have D: "D = zmul L Bp ((X3 + X1 + X2) * (X4 * S mod n) - X4 * (X2 * S mod n))"
    unfolding D_def AB genB g by (simp add: zz zmul_subtract[OF ok])
  have "zmul L D X2 = zmul L Bp (((X3 + X1 + X2) * (X4 * S mod n) - X4 * (X2 * S mod n)) * X2)"
    unfolding D by (simp add: zz)
  also have "\<dots> = zmul L Bp ((X1 + X3) * X2 * X4 * S)"
    by (rule zmul_cong) (simp only: key_exponent n_def[symmetric])
  also have "\<dots> = K" by (simp add: K X1_def X2_def X3_def X4_def S_def Bp_def)
  finally have KaK: "zmul L D X2 = K" .
  show ?thesis
  proof (rule derive_fields_cases[where b = AB and ?g1.0 = gA1 and ?g2.0 = gA2 and ?g3.0 = gB1
        and ?g4.0 = gB2 and x2b = x2b and x2sb = x2sA and zkp = zkpB and peer = uidB
        and q = "zmul L gB2 (X2 * S mod n)" and Ka = K])
    show "multiply L (subtract L AB (zmul L gB2 (X2 * S mod n))) (bytesToNumberBE x2b) = Some K"
      using Ka by (simp add: D_def[symmetric] KaK)
    show "verifyPeerProof L a3 uidB AB zkpB (add L (add L gA1 gB1) gA2) = Inr True"
      by (rule ver)
    show "multiply L gB2 (bytesToNumberBE x2sA) = Some (zmul L gB2 (X2 * S mod n))"
      by (rule q)
    show "\<not> equals L AB (ZERO L)" by (simp add: ok_equals[OF ok] AB0)
    show "uidB \<noteq> []" by (rule A2(1))
  qed (simp_all add: a3 A2(4) A1(6))
qed

text \<open>
  The shared secret of a round 2 that returns is not 0 modulo the group order.
\<close>

lemma round2_secret_nonzero:
  assumes "curve_ok L" "round2 L t m (Some sb) peerId vb = (Inr m2, t')"
  shows "\<not> CURVE_n L dvd bytesToNumberBE sb"
proof -
  from assms(2) have "mod_noble (bytesToNumberBE sb) (CURVE_n L) \<noteq> 0"
    by (rule round2_Inr) simp
  then show ?thesis
    using ok_n[OF assms(1)] by (simp add: mod_noble_eq dvd_eq_mod_eq_0)
qed

text \<open>
  The point \<open>(x1 + x3) * x2 * x4 * s\<close> times the base point is the point at infinity
  exactly when \<open>x1 + x3\<close> is a multiple of the group order.
\<close>

lemma key_point_ZERO_iff:
  assumes ok: "curve_ok L"
    and k2: "private_key L x2b" and k4: "private_key L x4b"
    and s: "\<not> CURVE_n L dvd bytesToNumberBE sb"
  shows "zmul L (BASE L)
           ((bytesToNumberBE x1b + bytesToNumberBE x3b) * bytesToNumberBE x2b *
             bytesToNumberBE x4b * bytesToNumberBE sb) = ZERO L \<longleftrightarrow>
         CURVE_n L dvd (bytesToNumberBE x1b + bytesToNumberBE x3b)"
proof -
  define n where "n = CURVE_n L"
  define X13 where "X13 = bytesToNumberBE x1b + bytesToNumberBE x3b"
  define X2 where "X2 = bytesToNumberBE x2b"
  define X4 where "X4 = bytesToNumberBE x4b"
  define S where "S = bytesToNumberBE sb"
  have n2: "\<not> n dvd X2" and n4: "\<not> n dvd X4"
    using private_key_range[OF k2] private_key_range[OF k4]
    by (simp_all add: not_dvd_in_range n_def X2_def X4_def)
  have nS: "\<not> n dvd S" using s by (simp add: n_def S_def)
  have "n dvd X13 * X2 * X4 * S \<longleftrightarrow> n dvd X13"
  proof
    assume "n dvd X13 * X2 * X4 * S"
    then have "n dvd X13 * X2 * X4"
      using ok_prime[OF ok, of "X13 * X2 * X4" S] nS unfolding n_def by blast
    then have "n dvd X13 * X2"
      using ok_prime[OF ok, of "X13 * X2" X4] n4 unfolding n_def by blast
    then show "n dvd X13"
      using ok_prime[OF ok, of X13 X2] n2 unfolding n_def by blast
  next
    assume "n dvd X13"
    then show "n dvd X13 * X2 * X4 * S" by simp
  qed
  then show ?thesis
    unfolding n_def X13_def X2_def X4_def S_def
    by (simp add: zmul_eq_ZERO_iff[OF ok ok_BASE[OF ok]])
qed

text \<open>
  When \<open>x1 + x3\<close> is not a multiple of the group order, the point has an encoding and
  \<open>deriveSharedKey\<close> returns its hash.
\<close>

lemma derive_one_side:
  assumes ok: "curve_ok L"
    and idA: "userId a0 = uidA" "otherInfo a0 = oi"
    and idB: "userId b0 = uidB" "otherInfo b0 = oi"
    and kA: "private_key L x1b" "private_key L x2b"
    and kB: "private_key L x3b" "private_key L x4b"
    and r1A: "round1 L a0 x1b x2b v1 v2 = (Inr m1A, a1)"
    and r1B: "round1 L b0 x3b x4b v3 v4 = (Inr m1B, b1)"
    and r2A: "round2 L a1 m1B (Some sb) uidB v5 = (Inr m2A, a2)"
    and r2B: "round2 L b1 m1A (Some sb) uidA v6 = (Inr m2B, b2)"
    and sA: "setRound2ResultFromBob L a2 m2B = (Inr u, a3)"
    and nz: "\<not> CURVE_n L dvd (bytesToNumberBE x1b + bytesToNumberBE x3b)"
    and K: "K = zmul L (BASE L)
              ((bytesToNumberBE x1b + bytesToNumberBE x3b) * bytesToNumberBE x2b *
                bytesToNumberBE x4b * bytesToNumberBE sb)"
  shows "K \<noteq> ZERO L \<and>
         (\<exists>kb. toRawBytes L K = Some kb \<and>
               deriveSharedKey L a3 = (Inr (sha3_256 L kb), a3\<lparr>state := KEYDERIVED\<rparr>))"
proof -
  have K0: "K \<noteq> ZERO L"
    unfolding K
    using key_point_ZERO_iff[OF ok kA(2) kB(2) round2_secret_nonzero[OF ok r2A], of x1b x3b] nz
    by simp
  from ok_encode[OF ok K0] obtain kb where kb: "toRawBytes L K = Some kb" by blast
  from derive_key_cases[OF ok idA idB kA kB r1A r1B r2A r2B sA K] kb
  have "deriveSharedKey L a3 = (Inr (sha3_256 L kb), a3\<lparr>state := KEYDERIVED\<rparr>)" by simp
  with K0 kb show ?thesis by blast
qed

text \<open>
  When \<open>x1 + x3\<close> is a multiple of the group order, the point is the point at infinity.
  In a library that refuses to encode it, as \<^verbatim>\<open>toRawBytes\<close> of \<^verbatim>\<open>@noble/curves\<close> does
  with "bad point: ZERO", \<open>deriveSharedKey\<close> throws that error after the five calls
  before it have returned, and the session stays in \<open>ROUND2RESULTSRECEIVED\<close>.
\<close>

lemma derive_throws_at_infinity:
  assumes ok: "curve_ok L"
    and enc: "toRawBytes L (ZERO L) = None"
    and idA: "userId a0 = uidA" "otherInfo a0 = oi"
    and idB: "userId b0 = uidB" "otherInfo b0 = oi"
    and kA: "private_key L x1b" "private_key L x2b"
    and kB: "private_key L x3b" "private_key L x4b"
    and r1A: "round1 L a0 x1b x2b v1 v2 = (Inr m1A, a1)"
    and r1B: "round1 L b0 x3b x4b v3 v4 = (Inr m1B, b1)"
    and r2A: "round2 L a1 m1B (Some sb) uidB v5 = (Inr m2A, a2)"
    and r2B: "round2 L b1 m1A (Some sb) uidA v6 = (Inr m2B, b2)"
    and sA: "setRound2ResultFromBob L a2 m2B = (Inr u, a3)"
    and z: "CURVE_n L dvd (bytesToNumberBE x1b + bytesToNumberBE x3b)"
  shows "deriveSharedKey L a3 = (Inl LibraryError, a3)"
proof -
  define K where "K = zmul L (BASE L)
     ((bytesToNumberBE x1b + bytesToNumberBE x3b) * bytesToNumberBE x2b *
       bytesToNumberBE x4b * bytesToNumberBE sb)"
  have "K = ZERO L"
    unfolding K_def
    using key_point_ZERO_iff[OF ok kA(2) kB(2) round2_secret_nonzero[OF ok r2A], of x1b x3b] z
    by simp
  with derive_key_cases[OF ok idA idB kA kB r1A r1B r2A r2B sA K_def] enc
  show ?thesis by simp
qed

text \<open>
  C1 (key agreement). Two sessions with the same \<open>otherInfo\<close>, ephemeral scalars in
  \<open>[1, n)\<close> and the same shared secret run round 1, exchange the messages, run round 2
  on the peer's message, and exchange the round-2 messages. If these six calls return, and
  \<open>x1 + x3\<close> is not a multiple of the group order, then the two calls of
  \<open>deriveSharedKey\<close> return the same key of 32 bytes, and both sessions end in
  \<open>KEYDERIVED\<close>.
\<close>

theorem key_agreement:
  assumes ok: "curve_ok L"
    and nA: "new_JPake uidA oi = Inr a0"
    and nB: "new_JPake uidB oi = Inr b0"
    and kA: "private_key L x1b" "private_key L x2b"
    and kB: "private_key L x3b" "private_key L x4b"
    and r1A: "round1 L a0 x1b x2b v1 v2 = (Inr m1A, a1)"
    and r1B: "round1 L b0 x3b x4b v3 v4 = (Inr m1B, b1)"
    and r2A: "round2 L a1 m1B (Some sb) uidB v5 = (Inr m2A, a2)"
    and r2B: "round2 L b1 m1A (Some sb) uidA v6 = (Inr m2B, b2)"
    and sA: "setRound2ResultFromBob L a2 m2B = (Inr uA, a3)"
    and sB: "setRound2ResultFromBob L b2 m2A = (Inr uB, b3)"
    and nz: "\<not> CURVE_n L dvd (bytesToNumberBE x1b + bytesToNumberBE x3b)"
  shows "\<exists>k. length k = 32 \<and>
           deriveSharedKey L a3 = (Inr k, a3\<lparr>state := KEYDERIVED\<rparr>) \<and>
           deriveSharedKey L b3 = (Inr k, b3\<lparr>state := KEYDERIVED\<rparr>)"
proof -
  define K where "K = zmul L (BASE L)
     ((bytesToNumberBE x1b + bytesToNumberBE x3b) * bytesToNumberBE x2b *
       bytesToNumberBE x4b * bytesToNumberBE sb)"
  have idA: "userId a0 = uidA" "otherInfo a0 = oi"
    using nA by (auto simp: new_JPake_def split: if_splits)
  have idB: "userId b0 = uidB" "otherInfo b0 = oi"
    using nB by (auto simp: new_JPake_def split: if_splits)
  have nz': "\<not> CURVE_n L dvd (bytesToNumberBE x3b + bytesToNumberBE x1b)"
    using nz by (simp add: add.commute)
  have K': "K = zmul L (BASE L)
     ((bytesToNumberBE x3b + bytesToNumberBE x1b) * bytesToNumberBE x4b *
       bytesToNumberBE x2b * bytesToNumberBE sb)"
    unfolding K_def by (rule arg_cong[where f = "zmul L (BASE L)"]) (simp add: algebra_simps)
  from derive_one_side[OF ok idA idB kA kB r1A r1B r2A r2B sA nz K_def]
  obtain ka where ka: "toRawBytes L K = Some ka"
    "deriveSharedKey L a3 = (Inr (sha3_256 L ka), a3\<lparr>state := KEYDERIVED\<rparr>)"
    by blast
  from derive_one_side[OF ok idB idA kB kA r1B r1A r2B r2A sB nz' K']
  obtain kb where kb: "toRawBytes L K = Some kb"
    "deriveSharedKey L b3 = (Inr (sha3_256 L kb), b3\<lparr>state := KEYDERIVED\<rparr>)"
    by blast
  from ka(1) kb(1) have "ka = kb" by simp
  with ka(2) kb(2) ok_hash[OF ok, of ka] show ?thesis by blast
qed

lemma toy_private_key: "1 \<le> k \<Longrightarrow> k < 7 \<Longrightarrow> private_key toy (key k)"
  by (simp add: private_key_def key_def bytesToNumberBE_numberToBytesBE
      length_numberToBytesBE toy_fields)

lemma toy_key_value: "0 \<le> k \<Longrightarrow> bytesToNumberBE (key k) = k"
  by (simp add: key_def bytesToNumberBE_numberToBytesBE)

text \<open>
  C1 as stated fails where \<open>x1 + x3\<close> is a multiple of the group order, as for \<open>x1 = 1\<close>
  and \<open>x3 = n - 1\<close>: the six calls before \<open>deriveSharedKey\<close> return, but the point both
  parties reach is the point at infinity, which \<open>toRawBytes\<close> refuses to encode, so that
  both calls of \<open>deriveSharedKey\<close> throw and no key is returned
  (\<open>derive_throws_at_infinity\<close>). Here Alice draws \<open>x1 = 1\<close>, \<open>x2 = 2\<close>
  and Bob draws \<open>x1 = 6\<close>, \<open>x2 = 5\<close> in the group of order 7, with \<open>s = 3\<close>.
\<close>

theorem key_agreement_throws:
  "curve_ok toy \<and>
   new_JPake (js ''Alice'') None = Inr alice0 \<and> new_JPake (js ''Bob'') None = Inr bob0 \<and>
   private_key toy (key 1) \<and> private_key toy (key 2) \<and>
   private_key toy (key 6) \<and> private_key toy (key 5) \<and>
   mod_noble (bytesToNumberBE (key 3)) (CURVE_n toy) \<noteq> 0 \<and>
   round1 toy alice0 (key 1) (key 2) (key 2) (key 1) = (Inr aliceR1, alice1) \<and>
   round1 toy bob0 (key 6) (key 5) (key 1) (key 2) = (Inr bobR1_neg, bob1_neg) \<and>
   round2 toy alice1 bobR1_neg (Some (key 3)) (js ''Bob'') (key 1) = (Inr aliceR2_neg, alice2_neg) \<and>
   round2 toy bob1_neg aliceR1 (Some (key 3)) (js ''Alice'') (key 1) = (Inr bobR2_neg, bob2_neg) \<and>
   setRound2ResultFromBob toy alice2_neg bobR2_neg = (Inr (), alice3_neg) \<and>
   setRound2ResultFromBob toy bob2_neg aliceR2_neg = (Inr (), bob3_neg) \<and>
   deriveSharedKey toy alice3_neg = (Inl LibraryError, alice3_neg) \<and>
   deriveSharedKey toy bob3_neg = (Inl LibraryError, bob3_neg)"
proof -
  have k: "private_key toy (key 1)" "private_key toy (key 2)"
    "private_key toy (key 6)" "private_key toy (key 5)"
    by (simp_all add: toy_private_key)
  have s: "mod_noble (bytesToNumberBE (key 3)) (CURVE_n toy) \<noteq> 0"
    by (simp add: toy_key_value toy_fields mod_noble_eq)
  have r1: "round1 toy bob0 (key 6) (key 5) (key 1) (key 2) = (Inr bobR1_neg, bob1_neg)"
    by code_simp
  have r2a: "round2 toy alice1 bobR1_neg (Some (key 3)) (js ''Bob'') (key 1) =
             (Inr aliceR2_neg, alice2_neg)"
    by code_simp
  have r2b: "round2 toy bob1_neg aliceR1 (Some (key 3)) (js ''Alice'') (key 1) =
             (Inr bobR2_neg, bob2_neg)"
    by code_simp
  have sa: "setRound2ResultFromBob toy alice2_neg bobR2_neg = (Inr (), alice3_neg)"
    by code_simp
  have sb: "setRound2ResultFromBob toy bob2_neg aliceR2_neg = (Inr (), bob3_neg)"
    by code_simp
  have da: "deriveSharedKey toy alice3_neg = (Inl LibraryError, alice3_neg)"
    by code_simp
  have db: "deriveSharedKey toy bob3_neg = (Inl LibraryError, bob3_neg)"
    by code_simp
  show ?thesis
    using toy_ok toy_alice_new toy_bob_new k s toy_alice_round1 r1 r2a r2b sa sb da db
    by blast
qed

theorem key_agreement_witness:
  "curve_ok toy \<and>
   new_JPake (js ''Alice'') None = Inr alice0 \<and> new_JPake (js ''Bob'') None = Inr bob0 \<and>
   private_key toy (key 1) \<and> private_key toy (key 2) \<and>
   private_key toy (key 3) \<and> private_key toy (key 5) \<and>
   round1 toy alice0 (key 1) (key 2) (key 2) (key 1) = (Inr aliceR1, alice1) \<and>
   round1 toy bob0 (key 3) (key 5) (key 1) (key 2) = (Inr bobR1, bob1) \<and>
   round2 toy alice1 bobR1 (Some (key 3)) (js ''Bob'') (key 1) = (Inr aliceR2, alice2) \<and>
   round2 toy bob1 aliceR1 (Some (key 3)) (js ''Alice'') (key 2) = (Inr bobR2, bob2) \<and>
   setRound2ResultFromBob toy alice2 bobR2 = (Inr (), alice3) \<and>
   setRound2ResultFromBob toy bob2 aliceR2 = (Inr (), bob3) \<and>
   \<not> CURVE_n toy dvd (bytesToNumberBE (key 1) + bytesToNumberBE (key 3)) \<and>
   (\<exists>k. length k = 32 \<and>
        deriveSharedKey toy alice3 = (Inr k, alice3\<lparr>state := KEYDERIVED\<rparr>) \<and>
        deriveSharedKey toy bob3 = (Inr k, bob3\<lparr>state := KEYDERIVED\<rparr>))"
proof -
  have k: "private_key toy (key 1)" "private_key toy (key 2)"
    "private_key toy (key 3)" "private_key toy (key 5)"
    by (simp_all add: toy_private_key)
  have nz: "\<not> CURVE_n toy dvd (bytesToNumberBE (key 1) + bytesToNumberBE (key 3))"
    by (simp add: toy_key_value toy_fields)
  from key_agreement[OF toy_ok toy_alice_new toy_bob_new k toy_alice_round1 toy_bob_round1
      toy_alice_round2 toy_bob_round2 toy_alice_set toy_bob_set nz]
  show ?thesis
    using toy_ok toy_alice_new toy_bob_new k toy_alice_round1 toy_bob_round1
      toy_alice_round2 toy_bob_round2 toy_alice_set toy_bob_set nz
    by blast
qed

end
